theory Spec2Isabelle
  imports Main "HOL-Library.Word" "HOL-Library.Sublist"
begin

unbundle bit_operations_syntax

section \<open>Python values, exceptions and the outside world\<close>

text \<open>
  Strings are lists of characters, read as the code points 0 to 255. Bytes are 8-bit words.
  Every exception the modelled code can raise is an instance of Python's \<open>Exception\<close>.
\<close>

type_synonym byte = "8 word"

datatype exc =
    ConnectionError | Timeout | MissingSchema | HTTPError nat
  | AttributeError | TypeError | KeyError | IndexError | ValueError | ValidationError

text \<open>A hash constructor such as \<open>hashlib.sha512\<close>: its \<open>__qualname__\<close> and the hex
  digest it gives for a message.\<close>

record hasher =
  qualname :: string
  hexdigest_of :: "byte list \<Rightarrow> string"

datatype pyval = PyNone | PyStr string | PyCallable hasher

fun truthy :: "pyval \<Rightarrow> bool" where
  "truthy PyNone = False"
| "truthy (PyStr s) = (s \<noteq> [])"
| "truthy (PyCallable h) = True"

fun opt_val :: "string option \<Rightarrow> pyval" where
  "opt_val None = PyNone"
| "opt_val (Some s) = PyStr s"

text \<open>A \<open>requests.Response\<close>: the status, the decoded body, the raw body and the final
  (redirect-resolved) URL.\<close>

record response =
  status_code :: nat
  resp_text :: string
  resp_content :: "byte list"
  resp_url :: string

text \<open>The result of \<open>re.search\<close>: groups 0, 1 and 2 (a group the pattern does not have is
  empty).\<close>

type_synonym rmatch = "string \<times> string \<times> string"

text \<open>
  What the program reaches but does not define: the network behind \<open>requests.get\<close>,
  pydantic's \<open>HttpUrl\<close> validator (the stored value, or \<open>None\<close> when it rejects), and the
  parts of \<open>re\<close>, \<open>str.format\<close> and \<open>hashlib\<close> that lie outside the fragments modelled
  below.
\<close>

record env =
  requests_get :: "string \<Rightarrow> exc + response"
  http_url :: "string \<Rightarrow> string option"
  re_other :: "string \<Rightarrow> string \<Rightarrow> rmatch option"
  format_other :: "string \<Rightarrow> string \<Rightarrow> exc + string"
  sha512 :: "byte list \<Rightarrow> string"
  hashlib_other :: "string \<Rightarrow> (byte list \<Rightarrow> string) option"

text \<open>\<open>requests.get(url)\<close> with an \<open>Optional[str]\<close> argument: \<open>None\<close> has no scheme.\<close>

fun get :: "env \<Rightarrow> string option \<Rightarrow> exc + response" where
  "get E None = Inl MissingSchema"
| "get E (Some u) = requests_get E u"

text \<open>\<open>Response.raise_for_status\<close> raises on the 4xx and 5xx codes.\<close>

definition raise_for_status :: "response \<Rightarrow> exc + response" where
  "raise_for_status r =
     (if 400 \<le> status_code r \<and> status_code r < 600 then Inl (HTTPError (status_code r))
      else Inr r)"

definition get_raised :: "env \<Rightarrow> string option \<Rightarrow> exc + response" where
  "get_raised E u = (case get E u of Inl e \<Rightarrow> Inl e | Inr r \<Rightarrow> raise_for_status r)"

section \<open>The fragment of \<open>re\<close> the extractors use\<close>

text \<open>
  Every pattern of the program is a sequence of single-character atoms, each under one
  greedy quantifier, inside at most two unnested groups. An item is
  (group number or 0, atom, least count, greatest count or unbounded).
\<close>

datatype atom = Lit char | Dot | Word | WordDot | Digit

definition is_digit :: "char \<Rightarrow> bool" where
  "is_digit c = (let n = (of_char c :: nat) in 48 \<le> n \<and> n \<le> 57)"

text \<open>\<open>\w\<close> on a \<open>str\<close> pattern: the alphanumeric code points and the underscore.\<close>

definition is_word :: "char \<Rightarrow> bool" where
  "is_word c = (let n = (of_char c :: nat) in
     (48 \<le> n \<and> n \<le> 57) \<or> (65 \<le> n \<and> n \<le> 90) \<or> n = 95 \<or> (97 \<le> n \<and> n \<le> 122)
     \<or> n = 170 \<or> n = 178 \<or> n = 179 \<or> n = 181 \<or> n = 185 \<or> n = 186
     \<or> (188 \<le> n \<and> n \<le> 190) \<or> (192 \<le> n \<and> n \<le> 214) \<or> (216 \<le> n \<and> n \<le> 246)
     \<or> 248 \<le> n)"

fun accepts :: "atom \<Rightarrow> char \<Rightarrow> bool" where
  "accepts (Lit a) c = (c = a)"
| "accepts Dot c = (c \<noteq> CHR 0x0A)"
| "accepts Word c = is_word c"
| "accepts WordDot c = (is_word c \<or> c = CHR ''.'')"
| "accepts Digit c = is_digit c"

type_synonym item = "nat \<times> atom \<times> nat \<times> nat option"

text \<open>A greedy quantifier takes as many characters as it may and gives them back one at a
  time, down to its least count, until the rest of the pattern matches.\<close>

fun greedy :: "(string \<Rightarrow> string list option) \<Rightarrow> string \<Rightarrow> nat \<Rightarrow> nat \<Rightarrow> string list option" where
  "greedy cont s lo 0 =
     (if 0 < lo then None
      else case cont s of Some ps \<Rightarrow> Some ([] # ps) | None \<Rightarrow> None)"
| "greedy cont s lo (Suc k) =
     (if Suc k < lo then None
      else case cont (drop (Suc k) s) of
             Some ps \<Rightarrow> Some (take (Suc k) s # ps)
           | None \<Rightarrow> greedy cont s lo k)"

text \<open>Matching at the start of \<open>s\<close>: the text each item consumed, in order.\<close>

primrec match_here :: "item list \<Rightarrow> string \<Rightarrow> string list option" where
  "match_here [] s = Some []"
| "match_here (it # its) s =
     (case it of (g, a, lo, hi) \<Rightarrow>
        let n = length (takeWhile (accepts a) s);
            m = (case hi of None \<Rightarrow> n | Some h \<Rightarrow> min h n)
        in greedy (match_here its) s lo m)"

text \<open>\<open>re.search\<close> scans the start positions from the left, the end of the text included.\<close>

fun search :: "item list \<Rightarrow> string \<Rightarrow> string list option" where
  "search p [] = match_here p []"
| "search p (c # cs) =
     (case match_here p (c # cs) of Some ps \<Rightarrow> Some ps | None \<Rightarrow> search p cs)"

definition group :: "item list \<Rightarrow> nat \<Rightarrow> string list \<Rightarrow> string" where
  "group p k ps = concat (map snd (filter (\<lambda>(it, piece). fst it = k) (zip p ps)))"

definition re_search :: "item list \<Rightarrow> string \<Rightarrow> rmatch option" where
  "re_search p s =
     (case search p s of None \<Rightarrow> None
      | Some ps \<Rightarrow> Some (concat ps, group p 1 ps, group p 2 ps))"

definition lit :: "nat \<Rightarrow> string \<Rightarrow> item list" where
  "lit g s = map (\<lambda>c. (g, Lit c, 1, Some 1)) s"

text \<open>
  A string interpolated into a pattern is itself pattern text. Without any of the special
  characters other than the dot it stands for itself, the dot for any character but the
  newline; with one of them it is outside the fragment.
\<close>

definition special :: "char \<Rightarrow> bool" where
  \<open>special c = (c \<in> set (''^$*+?{}[]()|'' @ [CHR 0x5C]))\<close>

definition interp :: "nat \<Rightarrow> string \<Rightarrow> item list option" where
  "interp g s =
     (if list_ex special s then None
      else Some (map (\<lambda>c. if c = CHR ''.'' then (g, Dot, 1, Some 1) else (g, Lit c, 1, Some 1)) s))"

text \<open>The patterns \<open>VERSION="(.*)"\<close> and \<open>(.*) {2}codecov\<close> of the Codecov extractor.\<close>

definition version_pattern :: "item list" where
  \<open>version_pattern = lit 0 ''VERSION="'' @ [(1, Dot, 0, None)] @ lit 0 ''"''\<close>

definition sha512sum_pattern :: "item list" where
  "sha512sum_pattern = [(1, Dot, 0, None), (0, Lit CHR '' '', 2, Some 2)] @ lit 0 ''codecov''"

text \<open>The pattern \<open>{key}: "(.*)"\<close> of the Transmission extractor, for an interpolated key.\<close>

definition key_search :: "env \<Rightarrow> string \<Rightarrow> string \<Rightarrow> rmatch option" where
  \<open>key_search E key s =
     (case interp 0 key of
        Some ks \<Rightarrow> re_search (ks @ lit 0 '': "'' @ [(1, Dot, 0, None)] @ lit 0 ''"'') s
      | None \<Rightarrow> re_other E (key @ '': "(.*)"'') s)\<close>

section \<open>String helpers\<close>

text \<open>\<open>str.strip()\<close>: the characters for which \<open>str.isspace\<close> holds.\<close>

definition is_space :: "char \<Rightarrow> bool" where
  "is_space c = ((of_char c :: nat) \<in> set [9, 10, 11, 12, 13, 28, 29, 30, 31, 32, 133, 160])"

definition strip :: "string \<Rightarrow> string" where
  "strip s = rev (dropWhile is_space (rev (dropWhile is_space s)))"

text \<open>
  \<open>template.format(version=v)\<close> for templates made of literal text, the escapes
  \<open>{{\<close> and \<open>}}\<close>, and the field \<open>{version}\<close>; \<open>None\<close> for any other template.
\<close>

function format_version :: "string \<Rightarrow> string \<Rightarrow> string option" where
  "format_version [] v = Some []"
| "format_version (c # r) v =
     (if c = CHR ''{'' then
        (if take 1 r = ''{'' then map_option ((#) CHR ''{'') (format_version (drop 1 r) v)
         else if take 8 r = ''version}'' then map_option ((@) v) (format_version (drop 8 r) v)
         else None)
      else if c = CHR ''}'' then
        (if take 1 r = ''}'' then map_option ((#) CHR ''}'') (format_version (drop 1 r) v)
         else None)
      else map_option ((#) c) (format_version r v))"
  by pat_completeness auto
termination
  by (relation "measure (\<lambda>(t, v). length t)") auto

declare format_version.simps [simp del]

definition format :: "env \<Rightarrow> string \<Rightarrow> string \<Rightarrow> exc + string" where
  "format E t v = (case format_version t v of Some s \<Rightarrow> Inr s | None \<Rightarrow> format_other E t v)"

section \<open>SHA-256 (FIPS 180-4), as \<open>hashlib\<close> computes it\<close>

type_synonym u32 = "32 word"

definition K256 :: "u32 list" where
  "K256 = [
  0x428A2F98, 0x71374491, 0xB5C0FBCF, 0xE9B5DBA5, 0x3956C25B, 0x59F111F1, 0x923F82A4, 0xAB1C5ED5,
  0xD807AA98, 0x12835B01, 0x243185BE, 0x550C7DC3, 0x72BE5D74, 0x80DEB1FE, 0x9BDC06A7, 0xC19BF174,
  0xE49B69C1, 0xEFBE4786, 0x0FC19DC6, 0x240CA1CC, 0x2DE92C6F, 0x4A7484AA, 0x5CB0A9DC, 0x76F988DA,
  0x983E5152, 0xA831C66D, 0xB00327C8, 0xBF597FC7, 0xC6E00BF3, 0xD5A79147, 0x06CA6351, 0x14292967,
  0x27B70A85, 0x2E1B2138, 0x4D2C6DFC, 0x53380D13, 0x650A7354, 0x766A0ABB, 0x81C2C92E, 0x92722C85,
  0xA2BFE8A1, 0xA81A664B, 0xC24B8B70, 0xC76C51A3, 0xD192E819, 0xD6990624, 0xF40E3585, 0x106AA070,
  0x19A4C116, 0x1E376C08, 0x2748774C, 0x34B0BCB5, 0x391C0CB3, 0x4ED8AA4A, 0x5B9CCA4F, 0x682E6FF3,
  0x748F82EE, 0x78A5636F, 0x84C87814, 0x8CC70208, 0x90BEFFFA, 0xA4506CEB, 0xBEF9A3F7, 0xC67178F2]"

definition H256 :: "u32 list" where
  "H256 = [0x6A09E667, 0xBB67AE85, 0x3C6EF372, 0xA54FF53A,
           0x510E527F, 0x9B05688C, 0x1F83D9AB, 0x5BE0CD19]"

definition rotr :: "nat \<Rightarrow> u32 \<Rightarrow> u32" where
  "rotr n x = drop_bit n x OR push_bit (32 - n) x"

definition Ch :: "u32 \<Rightarrow> u32 \<Rightarrow> u32 \<Rightarrow> u32" where
  "Ch x y z = (x AND y) XOR (NOT x AND z)"

definition Maj :: "u32 \<Rightarrow> u32 \<Rightarrow> u32 \<Rightarrow> u32" where
  "Maj x y z = (x AND y) XOR (x AND z) XOR (y AND z)"

definition Sigma0 :: "u32 \<Rightarrow> u32" where
  "Sigma0 x = rotr 2 x XOR rotr 13 x XOR rotr 22 x"

definition Sigma1 :: "u32 \<Rightarrow> u32" where
  "Sigma1 x = rotr 6 x XOR rotr 11 x XOR rotr 25 x"

definition sigma0 :: "u32 \<Rightarrow> u32" where
  "sigma0 x = rotr 7 x XOR rotr 18 x XOR drop_bit 3 x"

definition sigma1 :: "u32 \<Rightarrow> u32" where
  "sigma1 x = rotr 17 x XOR rotr 19 x XOR drop_bit 10 x"

text \<open>The message schedule, newest word first: the head is W(t-1).\<close>

fun schedule :: "nat \<Rightarrow> u32 list \<Rightarrow> u32 list" where
  "schedule 0 ws = ws"
| "schedule (Suc n) ws =
     schedule n ((sigma1 (ws ! 1) + ws ! 6 + sigma0 (ws ! 14) + ws ! 15) # ws)"

fun rounds :: "u32 list \<Rightarrow> u32 list \<Rightarrow> u32 list \<Rightarrow> u32 list" where
  "rounds [a, b, c, d, e, f, g, h] (k # ks) (w # ws) =
     (let t1 = h + Sigma1 e + Ch e f g + k + w; t2 = Sigma0 a + Maj a b c
      in rounds [t1 + t2, a, b, c, d + t1, e, f, g] ks ws)"
| "rounds st _ _ = st"

definition compress :: "u32 list \<Rightarrow> u32 list \<Rightarrow> u32 list" where
  "compress hs blk = map2 (+) hs (rounds hs K256 (rev (schedule 48 (rev blk))))"

fun be32 :: "byte list \<Rightarrow> u32 list" where
  "be32 (a # b # c # d # r) =
     (push_bit 24 (ucast a) OR push_bit 16 (ucast b) OR push_bit 8 (ucast c) OR ucast d) # be32 r"
| "be32 _ = []"

definition pad :: "byte list \<Rightarrow> byte list" where
  "pad m = m @ [0x80] @ replicate ((119 - length m mod 64) mod 64) 0 @
     map (\<lambda>i. ucast (drop_bit (8 * i) (word_of_nat (8 * length m) :: 64 word)))
       [7, 6, 5, 4, 3, 2, 1, 0]"

fun blocks :: "nat \<Rightarrow> u32 list \<Rightarrow> u32 list \<Rightarrow> u32 list" where
  "blocks 0 hs ws = hs"
| "blocks (Suc n) hs ws = blocks n (compress hs (take 16 ws)) (drop 16 ws)"

definition sha256_words :: "byte list \<Rightarrow> u32 list" where
  "sha256_words m = (let p = pad m in blocks (length p div 64) H256 (be32 p))"

definition hexdigit :: "nat \<Rightarrow> char" where
  "hexdigit n = ''0123456789abcdef'' ! (n mod 16)"

definition hex32 :: "u32 \<Rightarrow> string" where
  "hex32 w = map (\<lambda>i. hexdigit (unat (drop_bit (4 * i) w AND 15))) [7, 6, 5, 4, 3, 2, 1, 0]"

definition sha256_hex :: "byte list \<Rightarrow> string" where
  "sha256_hex m = concat (map hex32 (sha256_words m))"

section \<open>hecksum.py\<close>

text \<open>
  The one-module version of the program. Its classes have the names of those of
  references.py; here they and their fields end in a prime. Both of its models hold \<open>checksum_url\<close>,
  \<open>download_url\<close> and \<open>checksum\<close>; the Reference adds \<open>hash_function\<close>, the factory
  \<open>hasher\<close> and the fields of its class. Nothing is validated on assignment.
\<close>

record urls' =
  checksum_url' :: "string option"
  download_url' :: "string option"
  checksum' :: "string option"

record reference' = urls' +
  hash_function :: "string option"

datatype variant' =
    Generic'
  | CodecovBashUploader'
  | Transmission' string string string

record factory' = urls' +
  hasher :: hasher
  kind' :: variant'

text \<open>Reading an attribute of a Reference by name: a field's value, and \<open>AttributeError\<close> for
  a name that is no field (the program reads none of the methods a model inherits).\<close>

definition getattr :: "reference' \<Rightarrow> string \<Rightarrow> exc + string option" where
  "getattr r n =
     (if n = ''hash_function'' then Inr (hash_function r)
      else if n = ''checksum_url'' then Inr (checksum_url' r)
      else if n = ''download_url'' then Inr (download_url' r)
      else if n = ''checksum'' then Inr (checksum' r)
      else Inl AttributeError)"

text \<open>An \<open>Optional[str]\<close> inside an f-string.\<close>

fun py_str :: "string option \<Rightarrow> string" where
  "py_str None = ''None''"
| "py_str (Some s) = s"

text \<open>\<open>Exception\<close> is a base of every exception class of the model.\<close>

definition isinstance_Exception :: "exc \<Rightarrow> bool" where
  "isinstance_Exception e = True"

record pstate' =
  self' :: factory'
  ref' :: reference'

definition populate_generic' :: "env \<Rightarrow> pstate' \<Rightarrow> exc option \<times> pstate'" where
  "populate_generic' E st =
     (case get_raised E (checksum_url' (ref' st)) of
        Inl e \<Rightarrow> (Some e, st)
      | Inr r \<Rightarrow> (None, st\<lparr>ref' := (ref' st)\<lparr>checksum' := Some (resp_text r)\<rparr>\<rparr>))"

definition populate_codecov' :: "env \<Rightarrow> pstate' \<Rightarrow> exc option \<times> pstate'" where
  "populate_codecov' E st =
     (case get_raised E (download_url' (ref' st)) of
        Inl e \<Rightarrow> (Some e, st)
      | Inr script \<Rightarrow>
         (case re_search version_pattern (resp_text script) of
            None \<Rightarrow> (Some AttributeError, st)
          | Some (g0, version, g2) \<Rightarrow>
             (let st1 = st\<lparr>ref' := (ref' st)\<lparr>checksum_url' :=
                          Some (''https://raw.githubusercontent.com/codecov/codecov-bash/''
                                  @ version @ ''/SHA512SUM'')\<rparr>\<rparr>
              in case get_raised E (checksum_url' (ref' st1)) of
                   Inl e \<Rightarrow> (Some e, st1)
                 | Inr sums \<Rightarrow>
                    (case re_search sha512sum_pattern (resp_text sums) of
                       None \<Rightarrow> (Some AttributeError, st1)
                     | Some (h0, h1, h2) \<Rightarrow>
                         (None, st1\<lparr>ref' := (ref' st1)\<lparr>checksum' := Some h1\<rparr>\<rparr>)))))"

text \<open>\<open>Transmission._populate\<close> reads the keys and the template from \<open>ref\<close>.\<close>

definition populate_transmission' :: "env \<Rightarrow> pstate' \<Rightarrow> exc option \<times> pstate'" where
  "populate_transmission' E st =
     (case get_raised E (checksum_url' (ref' st)) of
        Inl e \<Rightarrow> (Some e, st)
      | Inr constants \<Rightarrow>
         (case getattr (ref' st) ''sha_key'' of
            Inl e \<Rightarrow> (Some e, st)
          | Inr shakey \<Rightarrow>
             (case key_search E (py_str shakey) (resp_text constants) of
                None \<Rightarrow> (Some AttributeError, st)
              | Some (g0, sha, g2) \<Rightarrow>
                 (let st1 = st\<lparr>ref' := (ref' st)\<lparr>checksum' := Some sha\<rparr>\<rparr>
                  in case getattr (ref' st1) ''version_key'' of
                       Inl e \<Rightarrow> (Some e, st1)
                     | Inr verkey \<Rightarrow>
                        (case key_search E (py_str verkey) (resp_text constants) of
                           None \<Rightarrow> (Some AttributeError, st1)
                         | Some (h0, version, h2) \<Rightarrow>
                            (case getattr (ref' st1) ''file_name_template'' of
                               Inl e \<Rightarrow> (Some e, st1)
                             | Inr None \<Rightarrow> (Some AttributeError, st1)
                             | Inr (Some template) \<Rightarrow>
                                (case format E template version of
                                   Inl e \<Rightarrow> (Some e, st1)
                                 | Inr file_name \<Rightarrow>
                                    (None, st1\<lparr>ref' := (ref' st1)\<lparr>download_url' :=
                                       Some (''https://github.com/transmission/transmission-releases/raw/master/''
                                               @ file_name)\<rparr>\<rparr>))))))))"

definition populate' :: "env \<Rightarrow> pstate' \<Rightarrow> exc option \<times> pstate'" where
  "populate' E st =
     (case kind' (self' st) of
        Generic' \<Rightarrow> populate_generic' E st
      | CodecovBashUploader' \<Rightarrow> populate_codecov' E st
      | Transmission' t sk vk \<Rightarrow> populate_transmission' E st)"

text \<open>\<open>ReferenceFactory.make\<close>, under \<open>suppress(Exception)\<close>.\<close>

definition new_reference' :: "factory' \<Rightarrow> reference'" where
  "new_reference' f =
     \<lparr>checksum_url' = checksum_url' f, download_url' = download_url' f,
      checksum' = checksum' f, hash_function = Some (qualname (hasher f))\<rparr>"

definition make' :: "env \<Rightarrow> factory' \<Rightarrow> (exc + reference') \<times> factory'" where
  "make' E f =
     (case populate' E \<lparr>self' = f, ref' = new_reference' f\<rparr> of
        (None, st) \<Rightarrow> (Inr (ref' st), self' st)
      | (Some e, st) \<Rightarrow>
          (if isinstance_Exception e then Inr (ref' st) else Inl e, self' st))"

definition hashlib_sha512 :: "env \<Rightarrow> hasher" where
  "hashlib_sha512 E = \<lparr>qualname = ''openssl_sha512'', hexdigest_of = sha512 E\<rparr>"

definition hashlib_sha256 :: hasher where
  "hashlib_sha256 = \<lparr>qualname = ''openssl_sha256'', hexdigest_of = sha256_hex\<rparr>"

definition codecov_bash_uploader' :: "env \<Rightarrow> factory'" where
  "codecov_bash_uploader' E =
     \<lparr>checksum_url' = None, download_url' = Some ''https://codecov.io/bash'', checksum' = None,
      hasher = hashlib_sha512 E, kind' = CodecovBashUploader'\<rparr>"

definition test_failure' :: "env \<Rightarrow> factory'" where
  "test_failure' E =
     \<lparr>checksum_url' = Some ''https://hecksum.com/failureSHA512.txt'',
      download_url' = Some ''https://hecksum.com/failure.txt'', checksum' = None,
      hasher = hashlib_sha512 E, kind' = Generic'\<rparr>"

definition transmission' :: "string \<Rightarrow> string \<Rightarrow> string \<Rightarrow> factory'" where
  "transmission' template shakey verkey =
     \<lparr>checksum_url' = Some ''https://transmissionbt.com/includes/js/constants.js'',
      download_url' = None, checksum' = None,
      hasher = hashlib_sha256, kind' = Transmission' template shakey verkey\<rparr>"

record project =
  name :: string
  airtable_id :: string

definition REFERENCE_FACTORIES :: "env \<Rightarrow> (string \<times> factory') list" where
  "REFERENCE_FACTORIES E =
     [(''rec1stqERwHeVoyTr'', codecov_bash_uploader' E),
      (''recU4m6YnYdQ4U76q'', test_failure' E),
      (''recPGEEzOeJ2gNh7u'',
         transmission' ''Transmission-{version}.dmg'' ''sha256_dmg'' ''current_version_dmg''),
      (''rec6xk5CUPcjsqIyD'',
         transmission' ''transmission-{version}-x86.msi'' ''sha256_msi32'' ''current_version_msi''),
      (''recZOMQpGtd524lsj'',
         transmission' ''transmission-{version}-x64.msi'' ''sha256_msi64'' ''current_version_msi''),
      (''recVSRZVqVDt2SCom'',
         transmission' ''transmission-{version}.tar.xz'' ''sha256_tar'' ''current_version_tar'')]"

text \<open>\<open>Project.reference\<close>: a key the dictionary lacks raises \<open>KeyError\<close>.\<close>

definition project_reference :: "env \<Rightarrow> project \<Rightarrow> exc + reference'" where
  "project_reference E p =
     (case map_of (REFERENCE_FACTORIES E) (airtable_id p) of
        None \<Rightarrow> Inl KeyError
      | Some f \<Rightarrow> fst (make' E f))"

datatype status = Passing | Error | Failing

record check =
  check_project :: project
  check_status :: status
  check_checksum :: "string option"
  check_checksum_url :: "string option"
  check_download_url :: "string option"

text \<open>\<open>Check.create_download_checksum(url, hasher)\<close>: calling what is not callable raises
  \<open>TypeError\<close>.\<close>

definition create_download_checksum :: "env \<Rightarrow> string option \<Rightarrow> pyval \<Rightarrow> exc + string" where
  "create_download_checksum E u h =
     (case get E u of
        Inl e \<Rightarrow> Inl e
      | Inr r \<Rightarrow>
         (case raise_for_status r of
            Inl e \<Rightarrow> Inl e
          | Inr r' \<Rightarrow>
             (case h of
                PyCallable f \<Rightarrow> Inr (hexdigest_of f (resp_content r'))
              | _ \<Rightarrow> Inl TypeError)))"

text \<open>\<open>Check.create\<close>: the arguments of the call are read inside the \<open>try\<close>, left to right.\<close>

definition download_attempt :: "env \<Rightarrow> reference' \<Rightarrow> exc + string" where
  "download_attempt E r =
     (case getattr r ''download_url'' of
        Inl e \<Rightarrow> Inl e
      | Inr u \<Rightarrow>
         (case getattr r ''hash_func'' of
            Inl e \<Rightarrow> Inl e
          | Inr h \<Rightarrow> create_download_checksum E u (opt_val h)))"

definition create :: "env \<Rightarrow> project \<Rightarrow> exc + check" where
  "create E p =
     (case project_reference E p of
        Inl e \<Rightarrow> Inl e
      | Inr r \<Rightarrow>
         (case download_attempt E r of
            Inl e \<Rightarrow>
              (if isinstance_Exception e
               then Inr \<lparr>check_project = p, check_status = Error, check_checksum = checksum' r,
                         check_checksum_url = checksum_url' r, check_download_url = download_url' r\<rparr>
               else Inl e)
          | Inr download_checksum \<Rightarrow>
              Inr \<lparr>check_project = p,
                   check_status = (if checksum' r = Some download_checksum then Passing else Failing),
                   check_checksum = checksum' r,
                   check_checksum_url = checksum_url' r, check_download_url = download_url' r\<rparr>))"

section \<open>references.py\<close>

record base_reference =
  algorithm :: string
  checksum_url :: "string option"
  download_url :: "string option"
  checksum :: "string option"

type_synonym reference = base_reference

text \<open>\<open>self.dict().values()\<close>, in field order, and Python's \<open>all\<close>.\<close>

definition dict_values :: "reference \<Rightarrow> pyval list" where
  "dict_values r =
     [PyStr (algorithm r), opt_val (checksum_url r), opt_val (download_url r), opt_val (checksum r)]"

definition populated :: "reference \<Rightarrow> bool" where
  "populated r = list_all truthy (dict_values r)"

text \<open>\<open>hashlib.new(name)\<close>, and a hash object as the constructor's digest function with the
  bytes fed to it so far.\<close>

definition hashlib_new :: "env \<Rightarrow> string \<Rightarrow> (byte list \<Rightarrow> string) option" where
  "hashlib_new E n =
     (if n = ''sha256'' then Some sha256_hex
      else if n = ''sha512'' then Some (sha512 E)
      else hashlib_other E n)"

type_synonym hash_obj = "(byte list \<Rightarrow> string) \<times> byte list"

definition update :: "byte list \<Rightarrow> hash_obj \<Rightarrow> hash_obj" where
  "update chunk h = (fst h, snd h @ chunk)"

definition hexdigest :: "hash_obj \<Rightarrow> string" where
  "hexdigest h = fst h (snd h)"

text \<open>\<open>iter_content(n)\<close>: the body in pieces of at most \<open>n\<close> bytes.\<close>

function iter_content :: "nat \<Rightarrow> byte list \<Rightarrow> byte list list" where
  "iter_content n bs =
     (if n = 0 \<or> bs = [] then [] else take n bs # iter_content n (drop n bs))"
  by pat_completeness auto
termination
  by (relation "measure (\<lambda>(n, bs). length bs)") auto

declare iter_content.simps [simp del]

definition get_download_checksum :: "env \<Rightarrow> reference \<Rightarrow> exc + string" where
  "get_download_checksum E r =
     (case hashlib_new E (algorithm r) of
        None \<Rightarrow> Inl ValueError
      | Some f \<Rightarrow>
         (case get E (download_url r) of
            Inl e \<Rightarrow> Inl e
          | Inr resp \<Rightarrow>
             (case raise_for_status resp of
                Inl e \<Rightarrow> Inl e
              | Inr resp' \<Rightarrow>
                  Inr (hexdigest (fold update (iter_content (1024 ^ 2) (resp_content resp')) (f, []))))))"

text \<open>The factory classes. A subclass fixes some fields and adds its own; \<open>kind\<close> is the
  class of the instance, with the fields that class adds.\<close>

datatype variant =
    Generic
  | CodecovBashUploader
  | Transmission (file_name_template: string) (sha_key: string) (version_key: string)
  | Doppler (architecture: string)

record factory = base_reference +
  kind :: variant

text \<open>
  \<open>Reference(**self.dict())\<close>: the four fields of the factory, its other fields ignored. The
  factory's values were validated when it was built, and validating them again returns them.
\<close>

definition new_reference :: "factory \<Rightarrow> reference" where
  "new_reference f =
     \<lparr>algorithm = algorithm f, checksum_url = checksum_url f,
      download_url = download_url f, checksum = checksum f\<rparr>"

text \<open>The two objects \<open>_populate\<close> works on. It runs to an exception or to its end, and
  leaves the objects as its assignments made them.\<close>

record pstate =
  self :: factory
  ref :: reference

text \<open>Assignments to the Reference are validated (\<open>validate_assignment = True\<close>): the checksum
  is stripped, a URL must be an \<open>HttpUrl\<close>. A rejected assignment changes nothing.\<close>

definition set_checksum :: "string \<Rightarrow> pstate \<Rightarrow> exc option \<times> pstate" where
  "set_checksum v st = (None, st\<lparr>ref := (ref st)\<lparr>checksum := Some (strip v)\<rparr>\<rparr>)"

definition set_checksum_url :: "env \<Rightarrow> string \<Rightarrow> pstate \<Rightarrow> exc option \<times> pstate" where
  "set_checksum_url E v st =
     (case http_url E v of
        None \<Rightarrow> (Some ValidationError, st)
      | Some u \<Rightarrow> (None, st\<lparr>ref := (ref st)\<lparr>checksum_url := Some u\<rparr>\<rparr>))"

definition set_download_url :: "env \<Rightarrow> string \<Rightarrow> pstate \<Rightarrow> exc option \<times> pstate" where
  "set_download_url E v st =
     (case http_url E v of
        None \<Rightarrow> (Some ValidationError, st)
      | Some u \<Rightarrow> (None, st\<lparr>ref := (ref st)\<lparr>download_url := Some u\<rparr>\<rparr>))"

text \<open>Assignments to a factory are refused (\<open>allow_mutation = False\<close>).\<close>

definition set_factory_field :: "string \<Rightarrow> pyval \<Rightarrow> pstate \<Rightarrow> exc option \<times> pstate" where
  "set_factory_field n v st = (Some TypeError, st)"

text \<open>\<open>ReferenceFactory._populate\<close>\<close>

definition populate_generic :: "env \<Rightarrow> pstate \<Rightarrow> exc option \<times> pstate" where
  "populate_generic E st =
     (case get_raised E (checksum_url (ref st)) of
        Inl e \<Rightarrow> (Some e, st)
      | Inr r \<Rightarrow> set_checksum (resp_text r) st)"

text \<open>\<open>CodecovBashUploader._populate\<close>\<close>

definition populate_codecov :: "env \<Rightarrow> pstate \<Rightarrow> exc option \<times> pstate" where
  "populate_codecov E st =
     (case get_raised E (download_url (ref st)) of
        Inl e \<Rightarrow> (Some e, st)
      | Inr script \<Rightarrow>
         (case re_search version_pattern (resp_text script) of
            None \<Rightarrow> (Some AttributeError, st)
          | Some (g0, version, g2) \<Rightarrow>
             (case set_checksum_url E
                     (''https://raw.githubusercontent.com/codecov/codecov-bash/'' @ version
                        @ ''/SHA512SUM'') st of
                (Some e, st1) \<Rightarrow> (Some e, st1)
              | (None, st1) \<Rightarrow>
                 (case get_raised E (checksum_url (ref st1)) of
                    Inl e \<Rightarrow> (Some e, st1)
                  | Inr sums \<Rightarrow>
                     (case re_search sha512sum_pattern (resp_text sums) of
                        None \<Rightarrow> (Some AttributeError, st1)
                      | Some (h0, h1, h2) \<Rightarrow> set_checksum h1 st1)))))"

text \<open>\<open>Transmission._populate\<close>\<close>

definition populate_transmission ::
  "env \<Rightarrow> string \<Rightarrow> string \<Rightarrow> string \<Rightarrow> pstate \<Rightarrow> exc option \<times> pstate" where
  "populate_transmission E template shakey verkey st =
     (case get_raised E (checksum_url (ref st)) of
        Inl e \<Rightarrow> (Some e, st)
      | Inr constants \<Rightarrow>
         (case key_search E shakey (resp_text constants) of
            None \<Rightarrow> (Some AttributeError, st)
          | Some (g0, sha, g2) \<Rightarrow>
             (case set_checksum sha st of
                (Some e, st1) \<Rightarrow> (Some e, st1)
              | (None, st1) \<Rightarrow>
                 (case key_search E verkey (resp_text constants) of
                    None \<Rightarrow> (Some AttributeError, st1)
                  | Some (h0, version, h2) \<Rightarrow>
                     (case format E template version of
                        Inl e \<Rightarrow> (Some e, st1)
                      | Inr file_name \<Rightarrow>
                          set_download_url E
                            (''https://github.com/transmission/transmission-releases/raw/master/''
                               @ file_name) st1)))))"

text \<open>\<open>Doppler._populate\<close>, with the patterns \<open>\d+\.\d+\.\d+\<close> and
  \<open>([\w\d]{64}) {2}(doppler_{version}_{architecture}\.[\w\.]+)\<close>.\<close>

definition release_pattern :: "item list" where
  "release_pattern =
     [(0, Digit, 1, None), (0, Lit CHR ''.'', 1, Some 1), (0, Digit, 1, None),
      (0, Lit CHR ''.'', 1, Some 1), (0, Digit, 1, None)]"

definition checksum_line_pattern :: "item list \<Rightarrow> item list \<Rightarrow> item list" where
  "checksum_line_pattern vs as =
     [(1, Word, 64, Some 64), (0, Lit CHR '' '', 2, Some 2)] @ lit 2 ''doppler_'' @ vs
       @ lit 2 ''_'' @ as @ [(2, Lit CHR ''.'', 1, Some 1), (2, WordDot, 1, None)]"

definition backslash :: string where
  "backslash = [CHR 0x5C]"

definition doppler_pattern_text :: "string \<Rightarrow> string \<Rightarrow> string" where
  "doppler_pattern_text version arch =
     ''(['' @ backslash @ ''w'' @ backslash @ ''d]{64}) {2}(doppler_'' @ version @ ''_'' @ arch
       @ backslash @ ''.['' @ backslash @ ''w'' @ backslash @ ''.]+)''"

definition doppler_search :: "env \<Rightarrow> string \<Rightarrow> string \<Rightarrow> string \<Rightarrow> rmatch option" where
  \<open>doppler_search E version arch s =
     (case (interp 2 version, interp 2 arch) of
        (Some vs, Some as) \<Rightarrow> re_search (checksum_line_pattern vs as) s
      | _ \<Rightarrow> re_other E (doppler_pattern_text version arch) s)\<close>

definition populate_doppler :: "env \<Rightarrow> string \<Rightarrow> pstate \<Rightarrow> exc option \<times> pstate" where
  "populate_doppler E arch st =
     (case requests_get E ''https://github.com/DopplerHQ/cli/releases/latest'' of
        Inl e \<Rightarrow> (Some e, st)
      | Inr latest \<Rightarrow>
         (case re_search release_pattern (resp_url latest) of
            None \<Rightarrow> (Some TypeError, st)
          | Some (version, g1, g2) \<Rightarrow>
             (case set_checksum_url E
                     (''https://github.com/DopplerHQ/cli/releases/download/'' @ version
                        @ ''/checksums.txt'') st of
                (Some e, st1) \<Rightarrow> (Some e, st1)
              | (None, st1) \<Rightarrow>
                 (case get_raised E (checksum_url (ref st1)) of
                    Inl e \<Rightarrow> (Some e, st1)
                  | Inr sums \<Rightarrow>
                     (case doppler_search E version arch (resp_text sums) of
                        None \<Rightarrow> (Some AttributeError, st1)
                      | Some (h0, csum, release_file_name) \<Rightarrow>
                         (case set_checksum csum st1 of
                            (Some e, st2) \<Rightarrow> (Some e, st2)
                          | (None, st2) \<Rightarrow>
                              set_download_url E
                                (''https://github.com/DopplerHQ/cli/releases/download/'' @ version
                                   @ ''/'' @ release_file_name) st2))))))"

text \<open>The method the instance's class defines.\<close>

definition populate :: "env \<Rightarrow> pstate \<Rightarrow> exc option \<times> pstate" where
  "populate E st =
     (case kind (self st) of
        Generic \<Rightarrow> populate_generic E st
      | CodecovBashUploader \<Rightarrow> populate_codecov E st
      | Transmission t sk vk \<Rightarrow> populate_transmission E t sk vk st
      | Doppler a \<Rightarrow> populate_doppler E a st)"

text \<open>
  \<open>ReferenceFactory.make\<close>. \<open>IGNORED_EXCEPTIONS\<close> comes from the settings module: which
  exceptions it holds is a parameter. The result is what the call returns or raises, and the
  factory as the call leaves it.
\<close>

definition make :: "(exc \<Rightarrow> bool) \<Rightarrow> env \<Rightarrow> factory \<Rightarrow> (exc + reference) \<times> factory" where
  "make IGNORED_EXCEPTIONS E f =
     (case populate E \<lparr>self = f, ref = new_reference f\<rparr> of
        (None, st) \<Rightarrow> (Inr (ref st), self st)
      | (Some e, st) \<Rightarrow>
          (if IGNORED_EXCEPTIONS e then Inr (ref st) else Inl e, self st))"

text \<open>Instances: a class's field defaults, and the module's factories.\<close>

definition reference_factory :: "string \<Rightarrow> string option \<Rightarrow> string option \<Rightarrow> factory" where
  "reference_factory alg cu du =
     \<lparr>algorithm = alg, checksum_url = cu, download_url = du, checksum = None, kind = Generic\<rparr>"

definition codecov_bash_uploader :: factory where
  "codecov_bash_uploader =
     \<lparr>algorithm = ''sha512'', checksum_url = None, download_url = Some ''https://codecov.io/bash'',
      checksum = None, kind = CodecovBashUploader\<rparr>"

definition test_failure :: factory where
  "test_failure =
     reference_factory ''sha512'' (Some ''https://hecksum.com/failureSHA512.txt'')
       (Some ''https://hecksum.com/failure.txt'')"

definition transmission :: "string \<Rightarrow> string \<Rightarrow> string \<Rightarrow> factory" where
  "transmission template shakey verkey =
     \<lparr>algorithm = ''sha256'',
      checksum_url = Some ''https://transmissionbt.com/includes/js/constants.js'',
      download_url = None, checksum = None, kind = Transmission template shakey verkey\<rparr>"

definition transmission_mac :: factory where
  "transmission_mac = transmission ''Transmission-{version}.dmg'' ''sha256_dmg'' ''current_version_dmg''"

definition doppler :: "string \<Rightarrow> factory" where
  "doppler arch =
     \<lparr>algorithm = ''sha256'', checksum_url = None, download_url = None, checksum = None,
      kind = Doppler arch\<rparr>"

definition doppler_windows_armv7 :: factory where
  "doppler_windows_armv7 = doppler ''linux_arm64''"

section \<open>Lines of a text\<close>

text \<open>The lines of a text, split at the newline characters, and the patterns none of whose
  atoms accepts a newline.\<close>

function lines_of :: "string \<Rightarrow> string list" where
  "lines_of s =
     (case dropWhile (\<lambda>c. c \<noteq> CHR 0x0A) s of
        [] \<Rightarrow> [s]
      | c # r \<Rightarrow> takeWhile (\<lambda>c. c \<noteq> CHR 0x0A) s # lines_of r)"
  by pat_completeness auto
termination
proof (relation "measure length")
  fix s :: string and c r
  assume "dropWhile (\<lambda>c. c \<noteq> CHR 0x0A) s = c # r"
  then have "length (c # r) \<le> length s"
    by (metis length_dropWhile_le)
  then show "(r, s) \<in> measure length" by simp
qed simp

declare lines_of.simps [simp del]

definition nlfree :: "item list \<Rightarrow> bool" where
  "nlfree p = list_all (\<lambda>it. \<not> accepts (fst (snd it)) (CHR 0x0A)) p"

section \<open>Worlds for the examples\<close>

text \<open>A world that serves a table of pages and fails to connect anywhere else, accepts
  every URL as it is, and has nothing beyond the modelled library fragments.\<close>

definition page :: "string \<Rightarrow> response" where
  "page body = \<lparr>status_code = 200, resp_text = body, resp_content = [], resp_url = []\<rparr>"

definition serve :: "(string \<times> response) list \<Rightarrow> string \<Rightarrow> exc + response" where
  "serve tbl u = (case map_of tbl u of None \<Rightarrow> Inl ConnectionError | Some r \<Rightarrow> Inr r)"

definition world :: "(string \<times> response) list \<Rightarrow> env" where
  "world tbl =
     \<lparr>requests_get = serve tbl, http_url = Some, re_other = (\<lambda>p s. None),
      format_other = (\<lambda>t v. Inl KeyError), sha512 = (\<lambda>m. []), hashlib_other = (\<lambda>n. None)\<rparr>"

text \<open>The exceptions of the network and of a pattern that is not found.\<close>

fun network_or_parse :: "exc \<Rightarrow> bool" where
  "network_or_parse ConnectionError = True"
| "network_or_parse Timeout = True"
| "network_or_parse MissingSchema = True"
| "network_or_parse (HTTPError n) = True"
| "network_or_parse AttributeError = True"
| "network_or_parse TypeError = True"
| "network_or_parse e = False"

definition codecov_world :: env where
  \<open>codecov_world = world [(''https://codecov.io/bash'', page ''VERSION="1.0.3"'')]\<close>

definition codecov_full_world :: env where
  \<open>codecov_full_world =
     world [(''https://codecov.io/bash'', page ''VERSION="1.0.3"''),
            (''https://raw.githubusercontent.com/codecov/codecov-bash/1.0.3/SHA512SUM'',
             page ''0a1b2c  codecov'')]\<close>

definition codecov_partial :: reference where
  "codecov_partial =
     \<lparr>algorithm = ''sha512'',
      checksum_url = Some ''https://raw.githubusercontent.com/codecov/codecov-bash/1.0.3/SHA512SUM'',
      download_url = Some ''https://codecov.io/bash'', checksum = None\<rparr>"

definition codecov_partial' :: reference' where
  "codecov_partial' =
     \<lparr>checksum_url' = Some ''https://raw.githubusercontent.com/codecov/codecov-bash/1.0.3/SHA512SUM'',
      download_url' = Some ''https://codecov.io/bash'', checksum' = None,
      hash_function = Some ''openssl_sha512''\<rparr>"

definition failure_world :: "(byte list \<Rightarrow> string) \<Rightarrow> byte list \<Rightarrow> env" where
  "failure_world H c =
     (world [(''https://hecksum.com/failure.txt'', (page [])\<lparr>resp_content := c\<rparr>),
             (''https://hecksum.com/failureSHA512.txt'', page (H c))])\<lparr>sha512 := H\<rparr>"

definition failure_project :: project where
  "failure_project = \<lparr>name = ''failure'', airtable_id = ''recU4m6YnYdQ4U76q''\<rparr>"

definition empty_download_world :: env where
  "empty_download_world = world [(''https://example.com/empty.bin'', page [])]"

definition abc_world :: env where
  "abc_world = world [(''https://hecksum.com/failureSHA512.txt'', page (''abc123'' @ [CHR 0x0A]))]"

definition hex_a :: string where
  "hex_a = ''0123456789abcdef0123456789abcdef0123456789abcdef0123456789abcdef''"

definition hex_b :: string where
  "hex_b = ''fedcba9876543210fedcba9876543210fedcba9876543210fedcba9876543210''"

definition manifest :: string where
  "manifest = ''checksums of release 3.23.0'' @ [CHR 0x0A]
     @ hex_a @ ''  doppler_3.23.0_linux_arm64.deb'' @ [CHR 0x0A]
     @ hex_b @ ''  doppler_3.23.0_linux_arm64.rpm'' @ [CHR 0x0A]"

definition constants_js :: string where
  \<open>constants_js = ''const constants = {'' @ [CHR 0x0A]
     @ ''    current_version_dmg: "3.00",'' @ [CHR 0x0A]
     @ ''    sha256_dmg: "deadbeef",'' @ [CHR 0x0A]
     @ ''};'' @ [CHR 0x0A]\<close>

definition transmission_world :: "string \<Rightarrow> env" where
  "transmission_world body =
     world [(''https://transmissionbt.com/includes/js/constants.js'', page body)]"

definition foo_factory :: factory where
  "foo_factory = transmission ''Foo-{version}.dmg'' ''sha256_dmg'' ''current_version_dmg''"

definition doppler_world :: env where
  "doppler_world =
     world [(''https://github.com/DopplerHQ/cli/releases/latest'',
             \<lparr>status_code = 200, resp_text = ''<html>9.9.9</html>'', resp_content = [],
              resp_url = ''https://github.com/DopplerHQ/cli/releases/tag/3.23.0''\<rparr>),
            (''https://github.com/DopplerHQ/cli/releases/download/3.23.0/checksums.txt'',
             page manifest)]"

definition doppler_start :: pstate where
  "doppler_start = \<lparr>self = doppler_windows_armv7, ref = new_reference doppler_windows_armv7\<rparr>"

section \<open>Properties\<close>

text \<open>
  C7. \<open>populated()\<close> is true exactly when each of the four fields (algorithm, checksum_url,
  download_url, checksum) is set and non-empty; a Reference with any field left unset is
  not populated.
\<close>

theorem populated_iff_all_fields:
  "(populated r \<longleftrightarrow>
      algorithm r \<noteq> [] \<and> (\<exists>u. checksum_url r = Some u \<and> u \<noteq> [])
      \<and> (\<exists>d. download_url r = Some d \<and> d \<noteq> []) \<and> (\<exists>c. checksum r = Some c \<and> c \<noteq> []))
   \<and> (checksum_url r = None \<or> download_url r = None \<or> checksum r = None \<longrightarrow> \<not> populated r)"
  by (cases "checksum_url r"; cases "download_url r"; cases "checksum r")
     (auto simp: populated_def dict_values_def)

theorem populated_iff_all_fields_witness:
  "populated \<lparr>algorithm = ''sha512'', checksum_url = Some ''https://hecksum.com/failureSHA512.txt'',
      download_url = Some ''https://hecksum.com/failure.txt'', checksum = Some ''abc123''\<rparr>
   \<and> \<not> populated \<lparr>algorithm = ''sha512'', checksum_url = Some ''https://hecksum.com/failureSHA512.txt'',
      download_url = Some ''https://hecksum.com/failure.txt'', checksum = None\<rparr>"
  using populated_iff_all_fields
    [of "\<lparr>algorithm = ''sha512'', checksum_url = Some ''https://hecksum.com/failureSHA512.txt'',
      download_url = Some ''https://hecksum.com/failure.txt'', checksum = Some ''abc123''\<rparr>"]
    populated_iff_all_fields
    [of "\<lparr>algorithm = ''sha512'', checksum_url = Some ''https://hecksum.com/failureSHA512.txt'',
      download_url = Some ''https://hecksum.com/failure.txt'', checksum = None\<rparr>"]
  by simp

subsection \<open>The factory is only read\<close>

lemma set_checksum_self: "set_checksum v st = (x, st') \<Longrightarrow> self st' = self st"
  by (auto simp: set_checksum_def)

lemma set_checksum_url_self: "set_checksum_url E v st = (x, st') \<Longrightarrow> self st' = self st"
  by (auto simp: set_checksum_url_def split: option.splits)

lemma set_download_url_self: "set_download_url E v st = (x, st') \<Longrightarrow> self st' = self st"
  by (auto simp: set_download_url_def split: option.splits)

lemma populate_generic_self: "populate_generic E st = (x, st') \<Longrightarrow> self st' = self st"
  by (auto simp: populate_generic_def split: sum.splits dest: set_checksum_self)

lemma populate_codecov_self: "populate_codecov E st = (x, st') \<Longrightarrow> self st' = self st"
  unfolding populate_codecov_def
  by (auto split: sum.splits option.splits prod.splits
           dest!: set_checksum_self set_checksum_url_self)

lemma populate_transmission_self:
  "populate_transmission E t sk vk st = (x, st') \<Longrightarrow> self st' = self st"
  unfolding populate_transmission_def
  by (auto split: sum.splits option.splits prod.splits
           dest!: set_checksum_self set_download_url_self)

lemma populate_doppler_self: "populate_doppler E a st = (x, st') \<Longrightarrow> self st' = self st"
  unfolding populate_doppler_def
  by (auto split: sum.splits option.splits prod.splits
           dest!: set_checksum_self set_checksum_url_self set_download_url_self)

lemma populate_self: "populate E st = (x, st') \<Longrightarrow> self st' = self st"
  unfolding populate_def
  by (auto split: variant.splits
           dest: populate_generic_self populate_codecov_self populate_transmission_self
                 populate_doppler_self)

lemma make_self: "snd (make IGN E f) = f"
proof -
  obtain x st where p: "populate E \<lparr>self = f, ref = new_reference f\<rparr> = (x, st)"
    by (cases "populate E \<lparr>self = f, ref = new_reference f\<rparr>")
  from populate_self [OF p] have "self st = f" by simp
  with p show ?thesis by (simp add: make_def split: option.splits)
qed

lemma populate'_self: "populate' E st = (x, st') \<Longrightarrow> self' st' = self' st"
  unfolding populate'_def populate_generic'_def populate_codecov'_def populate_transmission'_def
  by (auto simp: Let_def split: variant'.splits sum.splits option.splits prod.splits)

lemma make'_self: "snd (make' E f) = f"
proof -
  obtain x st where p: "populate' E \<lparr>self' = f, ref' = new_reference' f\<rparr> = (x, st)"
    by (cases "populate' E \<lparr>self' = f, ref' = new_reference' f\<rparr>")
  from populate'_self [OF p] have "self' st = f" by simp
  with p show ?thesis by (simp add: make'_def split: option.splits)
qed

text \<open>
  C1. In references.py, when the populate step raises an exception of
  \<open>IGNORED_EXCEPTIONS\<close>, \<open>make()\<close> returns the Reference in the state the step left it in;
  an exception outside that set reaches the caller; and when the step ends normally the
  Reference is returned. In hecksum.py, where the set is all of \<open>Exception\<close>, \<open>make()\<close>
  returns the Reference whatever the step raised.
\<close>

theorem make_swallows_ignored_only:
  "(populate E \<lparr>self = f, ref = new_reference f\<rparr> = (Some e, st) \<longrightarrow>
      (IGNORED e \<longrightarrow> fst (make IGNORED E f) = Inr (ref st))
      \<and> (\<not> IGNORED e \<longrightarrow> fst (make IGNORED E f) = Inl e))
   \<and> (populate E \<lparr>self = f, ref = new_reference f\<rparr> = (None, st) \<longrightarrow>
      fst (make IGNORED E f) = Inr (ref st))
   \<and> (populate' E \<lparr>self' = f', ref' = new_reference' f'\<rparr> = (raised, st') \<longrightarrow>
      fst (make' E f') = Inr (ref' st'))"
  by (auto simp: make_def make'_def isinstance_Exception_def split: option.splits)

theorem make_swallows_ignored_only_witness:
  "populate codecov_world \<lparr>self = codecov_bash_uploader, ref = new_reference codecov_bash_uploader\<rparr>
     = (Some ConnectionError, \<lparr>self = codecov_bash_uploader, ref = codecov_partial\<rparr>)
   \<and> network_or_parse ConnectionError
   \<and> fst (make network_or_parse codecov_world codecov_bash_uploader) = Inr codecov_partial
   \<and> fst (make (\<lambda>e. False) codecov_world codecov_bash_uploader) = Inl ConnectionError
   \<and> populate codecov_full_world
         \<lparr>self = codecov_bash_uploader, ref = new_reference codecov_bash_uploader\<rparr>
     = (None, \<lparr>self = codecov_bash_uploader, ref = codecov_partial\<lparr>checksum := Some ''0a1b2c''\<rparr>\<rparr>)
   \<and> fst (make network_or_parse codecov_full_world codecov_bash_uploader)
     = Inr (codecov_partial\<lparr>checksum := Some ''0a1b2c''\<rparr>)
   \<and> populate' codecov_world
         \<lparr>self' = codecov_bash_uploader' codecov_world,
          ref' = new_reference' (codecov_bash_uploader' codecov_world)\<rparr>
     = (Some ConnectionError,
        \<lparr>self' = codecov_bash_uploader' codecov_world, ref' = codecov_partial'\<rparr>)
   \<and> fst (make' codecov_world (codecov_bash_uploader' codecov_world)) = Inr codecov_partial'"
proof -
  have p1: "populate codecov_world
      \<lparr>self = codecov_bash_uploader, ref = new_reference codecov_bash_uploader\<rparr>
     = (Some ConnectionError, \<lparr>self = codecov_bash_uploader, ref = codecov_partial\<rparr>)"
    by code_simp
  have p2: "populate codecov_full_world
         \<lparr>self = codecov_bash_uploader, ref = new_reference codecov_bash_uploader\<rparr>
     = (None, \<lparr>self = codecov_bash_uploader, ref = codecov_partial\<lparr>checksum := Some ''0a1b2c''\<rparr>\<rparr>)"
    by code_simp
  have p3: "populate' codecov_world
         \<lparr>self' = codecov_bash_uploader' codecov_world,
          ref' = new_reference' (codecov_bash_uploader' codecov_world)\<rparr>
     = (Some ConnectionError,
        \<lparr>self' = codecov_bash_uploader' codecov_world, ref' = codecov_partial'\<rparr>)"
    by (simp add: populate'_def codecov_bash_uploader'_def populate_codecov'_def codecov_world_def
         world_def serve_def page_def get_raised_def raise_for_status_def re_search_def
         version_pattern_def lit_def group_def new_reference'_def hashlib_sha512_def
         codecov_partial'_def)
  show ?thesis
    using p1 p2 p3
      make_swallows_ignored_only [where E = codecov_world and f = codecov_bash_uploader
        and e = ConnectionError and IGNORED = network_or_parse
        and st = "\<lparr>self = codecov_bash_uploader, ref = codecov_partial\<rparr>"
        and f' = "codecov_bash_uploader' codecov_world" and raised = "Some ConnectionError"
        and st' = "\<lparr>self' = codecov_bash_uploader' codecov_world, ref' = codecov_partial'\<rparr>"]
      make_swallows_ignored_only [where E = codecov_world and f = codecov_bash_uploader
        and e = ConnectionError and IGNORED = "\<lambda>e. False"
        and st = "\<lparr>self = codecov_bash_uploader, ref = codecov_partial\<rparr>"]
      make_swallows_ignored_only [where E = codecov_full_world and f = codecov_bash_uploader
        and IGNORED = network_or_parse
        and st = "\<lparr>self = codecov_bash_uploader,
                  ref = codecov_partial\<lparr>checksum := Some ''0a1b2c''\<rparr>\<rparr>"]
    by simp
qed

text \<open>
  C10. A factory is the same after \<open>make()\<close> as before it, in references.py and in
  hecksum.py: the populate step writes to the new Reference only. An assignment to a field
  of a factory is refused and leaves it as it was.
\<close>

theorem factory_unchanged_by_make:
  "snd (make IGNORED E f) = f \<and> snd (make' E f') = f'
   \<and> self (snd (set_factory_field n v st)) = self st"
  by (simp add: make_self make'_self set_factory_field_def)

theorem factory_unchanged_by_make_witness:
  "snd (make network_or_parse codecov_full_world codecov_bash_uploader) = codecov_bash_uploader
   \<and> snd (make' codecov_world (codecov_bash_uploader' codecov_world))
       = codecov_bash_uploader' codecov_world"
  using factory_unchanged_by_make [where IGNORED = network_or_parse and E = codecov_full_world
      and f = codecov_bash_uploader]
    factory_unchanged_by_make [where E = codecov_world and f' = "codecov_bash_uploader' codecov_world"]
  by simp

text \<open>
  C9. Two calls of \<open>make()\<close> on one factory, in the same world, return the same result: when
  the first returns a Reference, the second returns a Reference with the same algorithm,
  checksum_url, download_url and checksum.
\<close>

theorem make_twice_same_reference:
  assumes "make IGNORED E f = (res1, f1)" and "make IGNORED E f1 = (res2, f2)"
  shows "res2 = res1
    \<and> (\<forall>r1. res1 = Inr r1 \<longrightarrow> (\<exists>r2. res2 = Inr r2 \<and> algorithm r2 = algorithm r1
          \<and> checksum_url r2 = checksum_url r1 \<and> download_url r2 = download_url r1
          \<and> checksum r2 = checksum r1))"
proof -
  have "f1 = f" using assms(1) make_self [of IGNORED E f] by simp
  with assms show ?thesis by simp
qed

theorem make_twice_same_reference_witness:
  "make network_or_parse codecov_full_world codecov_bash_uploader
     = (Inr (codecov_partial\<lparr>checksum := Some ''0a1b2c''\<rparr>), codecov_bash_uploader)
   \<and> make network_or_parse codecov_full_world
         (snd (make network_or_parse codecov_full_world codecov_bash_uploader))
     = (Inr (codecov_partial\<lparr>checksum := Some ''0a1b2c''\<rparr>), codecov_bash_uploader)"
proof -
  have m: "make network_or_parse codecov_full_world codecov_bash_uploader
     = (Inr (codecov_partial\<lparr>checksum := Some ''0a1b2c''\<rparr>), codecov_bash_uploader)"
    by code_simp
  obtain res2 f2 where m2: "make network_or_parse codecov_full_world codecov_bash_uploader
     = (res2, f2)"
    by (cases "make network_or_parse codecov_full_world codecov_bash_uploader")
  from make_twice_same_reference [OF m m2] have "res2 = Inr (codecov_partial\<lparr>checksum := Some ''0a1b2c''\<rparr>)"
    by simp
  with m m2 show ?thesis by simp
qed

subsection \<open>Check.create in hecksum.py\<close>

lemma download_attempt_raises: "download_attempt E r = Inl AttributeError"
  by (simp add: download_attempt_def getattr_def)

lemma make'_returns: "\<exists>r. fst (make' E f) = Inr r"
  by (cases "populate' E \<lparr>self' = f, ref' = new_reference' f\<rparr>")
     (auto simp: make'_def isinstance_Exception_def split: option.splits)

text \<open>
  C3, as amended. In hecksum.py, for every project whose \<open>airtable_id\<close> is a key of
  \<open>REFERENCE_FACTORIES\<close>, \<open>Check.create\<close> returns a Check with status Error, whatever the
  world serves: it reads \<open>ref.hash_func\<close>, the Reference has no such attribute (its field is
  \<open>hash_function\<close>), and the \<open>AttributeError\<close> is raised inside the \<open>try\<close>.
\<close>

theorem create_error_for_registered_project:
  assumes "map_of (REFERENCE_FACTORIES E) (airtable_id p) = Some f"
  shows "\<exists>c. create E p = Inr c \<and> check_status c = Error"
proof -
  obtain r where "fst (make' E f) = Inr r" using make'_returns by blast
  with assms have "project_reference E p = Inr r" by (simp add: project_reference_def)
  then show ?thesis
    by (simp add: create_def download_attempt_raises isinstance_Exception_def)
qed

theorem create_error_for_registered_project_witness:
  "map_of (REFERENCE_FACTORIES (failure_world (\<lambda>m. ''cafe'') [])) (airtable_id failure_project)
     = Some (test_failure' (failure_world (\<lambda>m. ''cafe'') []))
   \<and> (\<exists>k. create (failure_world (\<lambda>m. ''cafe'') []) failure_project = Inr k
          \<and> check_status k = Error)"
proof -
  have h: "map_of (REFERENCE_FACTORIES (failure_world (\<lambda>m. ''cafe'') []))
      (airtable_id failure_project) = Some (test_failure' (failure_world (\<lambda>m. ''cafe'') []))"
    by (simp add: REFERENCE_FACTORIES_def failure_project_def)
  from h create_error_for_registered_project [OF h] show ?thesis by simp
qed

text \<open>
  C3, as stated, fails at a project whose \<open>airtable_id\<close> is no key of the dictionary: the
  lookup raises \<open>KeyError\<close> and no Check is returned.
\<close>

theorem create_unregistered_project_raises:
  "create (world []) \<lparr>name = ''x'', airtable_id = ''unknown''\<rparr> = Inl KeyError"
  by (simp add: create_def project_reference_def REFERENCE_FACTORIES_def)

text \<open>
  C2. The project of the \<open>test_failure\<close> factory, in a world where the download succeeds with
  content \<open>c\<close> and the checksum page holds the SHA-512 digest of \<open>c\<close>: the expected checksum is
  that digest, \<open>create_download_checksum\<close> on the same URL with \<open>hashlib.sha512\<close> returns
  that digest too, and \<open>Check.create\<close> gives the status Error, not Passing.
\<close>

theorem create_error_despite_matching_checksums:
  "create (failure_world H c) failure_project =
     Inr \<lparr>check_project = failure_project, check_status = Error, check_checksum = Some (H c),
          check_checksum_url = Some ''https://hecksum.com/failureSHA512.txt'',
          check_download_url = Some ''https://hecksum.com/failure.txt''\<rparr>
   \<and> create_download_checksum (failure_world H c) (Some ''https://hecksum.com/failure.txt'')
         (PyCallable (hashlib_sha512 (failure_world H c))) = Inr (H c)"
  by (simp add: create_def project_reference_def REFERENCE_FACTORIES_def failure_project_def
        make'_def populate'_def test_failure'_def populate_generic'_def new_reference'_def
        get_raised_def raise_for_status_def failure_world_def world_def serve_def page_def
        download_attempt_raises isinstance_Exception_def create_download_checksum_def
        hashlib_sha512_def)

subsection \<open>The generic factory\<close>

text \<open>
  C6. For a factory of the base class, when the GET of \<open>checksum_url\<close> succeeds, \<open>make()\<close>
  returns the Reference built from the factory with its checksum set to the response body
  stripped of surrounding whitespace; a body of \<open>abc123\<close> followed by a newline gives the
  checksum \<open>abc123\<close>.
\<close>

theorem generic_checksum_is_trimmed_body:
  assumes "kind f = Generic" and "get_raised E (checksum_url f) = Inr r"
  shows "fst (make IGNORED E f) = Inr ((new_reference f)\<lparr>checksum := Some (strip (resp_text r))\<rparr>)
    \<and> (resp_text r = ''abc123'' @ [CHR 0x0A] \<longrightarrow>
          (\<exists>x. fst (make IGNORED E f) = Inr x \<and> checksum x = Some ''abc123''))"
proof -
  have a: "fst (make IGNORED E f) = Inr ((new_reference f)\<lparr>checksum := Some (strip (resp_text r))\<rparr>)"
    using assms
    by (simp add: make_def populate_def populate_generic_def set_checksum_def new_reference_def)
  have b: "strip (''abc123'' @ [CHR 0x0A]) = ''abc123''"
    by (simp add: strip_def is_space_def)
  from a b show ?thesis by simp
qed

theorem generic_checksum_is_trimmed_body_witness:
  "kind test_failure = Generic
   \<and> get_raised abc_world (checksum_url test_failure) = Inr (page (''abc123'' @ [CHR 0x0A]))
   \<and> fst (make network_or_parse abc_world test_failure)
       = Inr \<lparr>algorithm = ''sha512'', checksum_url = Some ''https://hecksum.com/failureSHA512.txt'',
              download_url = Some ''https://hecksum.com/failure.txt'', checksum = Some ''abc123''\<rparr>"
proof -
  have k: "kind test_failure = Generic"
    by (simp add: test_failure_def reference_factory_def)
  have g: "get_raised abc_world (checksum_url test_failure) = Inr (page (''abc123'' @ [CHR 0x0A]))"
    by (simp add: get_raised_def raise_for_status_def abc_world_def world_def serve_def page_def
          test_failure_def reference_factory_def)
  have s: "strip (''abc123'' @ [CHR 0x0A]) = ''abc123''"
    by (simp add: strip_def is_space_def)
  from generic_checksum_is_trimmed_body [OF k g, of network_or_parse] k g s show ?thesis
    by (simp add: page_def new_reference_def test_failure_def reference_factory_def)
qed

subsection \<open>The checksum of a download\<close>

lemma sha256_hex_empty:
  "sha256_hex [] = ''e3b0c44298fc1c149afbf4c8996fb92427ae41e4649b934ca495991b7852b855''"
  by code_simp

text \<open>
  C8. For a Reference with algorithm \<open>sha256\<close> whose download succeeds with a body of zero
  bytes, \<open>get_download_checksum\<close> returns
  \<open>e3b0c44298fc1c149afbf4c8996fb92427ae41e4649b934ca495991b7852b855\<close>.
\<close>

theorem sha256_of_empty_download:
  assumes "algorithm r = ''sha256''" and "get E (download_url r) = Inr resp"
    and "\<not> (400 \<le> status_code resp \<and> status_code resp < 600)"
    and "resp_content resp = []"
  shows "get_download_checksum E r
    = Inr ''e3b0c44298fc1c149afbf4c8996fb92427ae41e4649b934ca495991b7852b855''"
  using assms
  by (simp add: get_download_checksum_def hashlib_new_def raise_for_status_def
        iter_content.simps hexdigest_def sha256_hex_empty)

theorem sha256_of_empty_download_witness:
  "get empty_download_world (Some ''https://example.com/empty.bin'') = Inr (page [])
   \<and> \<not> (400 \<le> status_code (page []) \<and> status_code (page []) < 600)
   \<and> resp_content (page []) = []
   \<and> get_download_checksum empty_download_world
         \<lparr>algorithm = ''sha256'', checksum_url = None,
          download_url = Some ''https://example.com/empty.bin'', checksum = None\<rparr>
       = Inr ''e3b0c44298fc1c149afbf4c8996fb92427ae41e4649b934ca495991b7852b855''"
proof -
  have g: "get empty_download_world
      (download_url \<lparr>algorithm = ''sha256'', checksum_url = None,
          download_url = Some ''https://example.com/empty.bin'', checksum = None\<rparr>) = Inr (page [])"
    by (simp add: empty_download_world_def world_def serve_def)
  have st: "\<not> (400 \<le> status_code (page []) \<and> status_code (page []) < 600)"
    by (simp add: page_def)
  have c: "resp_content (page []) = []" by (simp add: page_def)
  from sha256_of_empty_download [OF _ g st c] g st c show ?thesis by simp
qed

subsection \<open>Matching stays within a line\<close>

lemma greedy_cong:
  assumes "\<And>i. i \<le> k \<Longrightarrow> cont (drop i s) = cont' (drop i s')"
    and "\<And>i. i \<le> k \<Longrightarrow> take i s = take i s'"
  shows "greedy cont s lo k = greedy cont' s' lo k"
  using assms
proof (induction k)
  case 0
  from 0(1) [of 0] show ?case by simp
next
  case (Suc k)
  have "greedy cont s lo k = greedy cont' s' lo k"
    by (rule Suc.IH) (simp_all add: Suc.prems)
  moreover have "cont (drop (Suc k) s) = cont' (drop (Suc k) s')"
    by (rule Suc.prems) simp
  moreover have "take (Suc k) s = take (Suc k) s'"
    by (rule Suc.prems) simp
  ultimately show ?case by (simp split: option.splits)
qed

lemma takeWhile_stop:
  "\<not> P y \<Longrightarrow> takeWhile P (xs @ y # ys) = takeWhile P xs"
  by (induction xs) simp_all

lemma match_here_line:
  "nlfree p \<Longrightarrow> CHR 0x0A \<notin> set l \<Longrightarrow> match_here p (l @ CHR 0x0A # rest) = match_here p l"
proof (induction p arbitrary: l)
  case Nil
  show ?case by simp
next
  case (Cons it its)
  obtain g a lo hi where it: "it = (g, a, lo, hi)" by (cases it)
  from Cons.prems(1) it have na: "\<not> accepts a (CHR 0x0A)" and nf: "nlfree its"
    by (simp_all add: nlfree_def)
  have tw: "takeWhile (accepts a) (l @ CHR 0x0A # rest) = takeWhile (accepts a) l"
    using na by (rule takeWhile_stop)
  define m where "m = (case hi of None \<Rightarrow> length (takeWhile (accepts a) l)
                        | Some h \<Rightarrow> min h (length (takeWhile (accepts a) l)))"
  have ml: "m \<le> length l"
    unfolding m_def using length_takeWhile_le [of "accepts a" l]
    by (auto split: option.splits)
  have "greedy (match_here its) (l @ CHR 0x0A # rest) lo m = greedy (match_here its) l lo m"
  proof (rule greedy_cong)
    fix i assume "i \<le> m"
    with ml have il: "i \<le> length l" by simp
    have "CHR 0x0A \<notin> set (drop i l)"
      using Cons.prems(2) by (meson in_set_dropD)
    from Cons.IH [OF nf this] il
    show "match_here its (drop i (l @ CHR 0x0A # rest)) = match_here its (drop i l)"
      by simp
    from il show "take i (l @ CHR 0x0A # rest) = take i l" by simp
  qed
  then show ?case
    by (simp add: it tw m_def)
qed

lemma search_line:
  "nlfree p \<Longrightarrow> CHR 0x0A \<notin> set l \<Longrightarrow>
   search p (l @ CHR 0x0A # rest)
     = (case search p l of Some ps \<Rightarrow> Some ps | None \<Rightarrow> search p rest)"
proof (induction l)
  case Nil
  from match_here_line [OF Nil(1), of "[]" rest] show ?case by simp
next
  case (Cons c l)
  from Cons.prems have "CHR 0x0A \<notin> set l" by simp
  from Cons.IH [OF Cons.prems(1) this]
    match_here_line [OF Cons.prems, of rest]
  show ?case by (simp split: option.splits)
qed

lemma split_at_newline:
  assumes "dropWhile (\<lambda>c. c \<noteq> CHR 0x0A) s = c # r"
  shows "s = takeWhile (\<lambda>c. c \<noteq> CHR 0x0A) s @ CHR 0x0A # r"
    and "CHR 0x0A \<notin> set (takeWhile (\<lambda>c. c \<noteq> CHR 0x0A) s)"
proof -
  have "c = CHR 0x0A"
    using assms hd_dropWhile [of "\<lambda>c. c \<noteq> CHR 0x0A" s] by force
  with assms takeWhile_dropWhile_id [of "\<lambda>c. c \<noteq> CHR 0x0A" s]
  show "s = takeWhile (\<lambda>c. c \<noteq> CHR 0x0A) s @ CHR 0x0A # r" by simp
  show "CHR 0x0A \<notin> set (takeWhile (\<lambda>c. c \<noteq> CHR 0x0A) s)"
    by (auto dest: set_takeWhileD)
qed

lemma lines_of_Nil:
  assumes "dropWhile (\<lambda>c. c \<noteq> CHR 0x0A) s = []"
  shows "lines_of s = [s]"
  by (subst lines_of.simps) (simp only: assms list.case)

lemma lines_of_Cons:
  assumes "dropWhile (\<lambda>c. c \<noteq> CHR 0x0A) s = c # r"
  shows "lines_of s = takeWhile (\<lambda>c. c \<noteq> CHR 0x0A) s # lines_of r"
  by (subst lines_of.simps) (simp only: assms list.case)

lemma search_first_line:
  "nlfree p \<Longrightarrow>
   search p s = (case find (\<lambda>l. search p l \<noteq> None) (lines_of s) of
                   None \<Rightarrow> None | Some l \<Rightarrow> search p l)"
proof (induction s rule: lines_of.induct)
  case (1 s)
  show ?case
  proof (cases "dropWhile (\<lambda>c. c \<noteq> CHR 0x0A) s")
    case Nil
    show ?thesis
      by (cases "search p s") (simp_all add: lines_of_Nil [OF Nil])
  next
    case (Cons c r)
    let ?l = "takeWhile (\<lambda>c. c \<noteq> CHR 0x0A) s"
    from split_at_newline [OF Cons] have s: "s = ?l @ CHR 0x0A # r" and n: "CHR 0x0A \<notin> set ?l"
      by simp_all
    have "search p s = search p (?l @ CHR 0x0A # r)" using s by simp
    also have "\<dots> = (case search p ?l of Some ps \<Rightarrow> Some ps | None \<Rightarrow> search p r)"
      by (rule search_line [OF "1.prems" n])
    finally have a: "search p s = (case search p ?l of Some ps \<Rightarrow> Some ps | None \<Rightarrow> search p r)" .
    from "1.IH" [OF Cons "1.prems"] have b:
      "search p r = (case find (\<lambda>l. search p l \<noteq> None) (lines_of r) of
                   None \<Rightarrow> None | Some l \<Rightarrow> search p l)" .
    show ?thesis
    proof (cases "search p ?l")
      case None
      with a b show ?thesis by (simp add: lines_of_Cons [OF Cons])
    next
      case (Some ps)
      with a show ?thesis by (simp add: lines_of_Cons [OF Cons])
    qed
  qed
qed

lemma greedy_SomeD:
  "greedy cont s lo k = Some res \<Longrightarrow>
   \<exists>j ps. j \<le> k \<and> cont (drop j s) = Some ps \<and> res = take j s # ps"
proof (induction k)
  case 0
  then show ?case by (auto split: if_splits option.splits)
next
  case (Suc k)
  show ?case
  proof (cases "cont (drop (Suc k) s)")
    case None
    with Suc.prems have "greedy cont s lo k = Some res" by (simp split: if_splits)
    from Suc.IH [OF this] obtain j ps where
      "j \<le> k" and "cont (drop j s) = Some ps" and "res = take j s # ps" by blast
    moreover from \<open>j \<le> k\<close> have "j \<le> Suc k" by simp
    ultimately show ?thesis by blast
  next
    case (Some ps)
    with Suc.prems have "res = take (Suc k) s # ps" by (simp split: if_splits)
    with Some show ?thesis by blast
  qed
qed

lemma take_within_takeWhile:
  "j \<le> length (takeWhile P s) \<Longrightarrow> list_all P (take j s)"
  by (induction s arbitrary: j) (auto simp: take_Cons' split: if_splits)

lemma match_here_pieces:
  "match_here p s = Some ps \<Longrightarrow>
   list_all2 (\<lambda>it piece. list_all (accepts (fst (snd it))) piece) p ps"
proof (induction p arbitrary: s ps)
  case Nil
  then show ?case by simp
next
  case (Cons it its)
  obtain g a lo hi where it: "it = (g, a, lo, hi)" by (cases it)
  define m where "m = (case hi of None \<Rightarrow> length (takeWhile (accepts a) s)
                        | Some h \<Rightarrow> min h (length (takeWhile (accepts a) s)))"
  have ml: "m \<le> length (takeWhile (accepts a) s)"
    unfolding m_def by (auto split: option.splits)
  from Cons.prems have "greedy (match_here its) s lo m = Some ps"
    by (simp add: it m_def Let_def)
  from greedy_SomeD [OF this] obtain j ps' where
    j: "j \<le> m" and c: "match_here its (drop j s) = Some ps'" and r: "ps = take j s # ps'"
    by blast
  from j ml have "list_all (accepts a) (take j s)"
    by (intro take_within_takeWhile) simp
  with Cons.IH [OF c] r it show ?case by simp
qed

lemma search_SomeD: "search p s = Some ps \<Longrightarrow> \<exists>t. match_here p t = Some ps"
proof (induction s)
  case Nil
  then show ?case by auto
next
  case (Cons c s)
  show ?case
  proof (cases "match_here p (c # s)")
    case None
    with Cons.prems have "search p s = Some ps" by simp
    from Cons.IH [OF this] show ?thesis .
  next
    case (Some qs)
    with Cons.prems have "qs = ps" by simp
    with Some show ?thesis by blast
  qed
qed

lemma digit_not_special: "is_digit c \<or> c = CHR ''.'' \<Longrightarrow> \<not> special c \<and> c \<noteq> CHR 0x0A"
  by (auto simp: is_digit_def special_def)

lemma release_version_chars:
  assumes "re_search release_pattern u = Some (v, g1, g2)"
  shows "list_all (\<lambda>c. is_digit c \<or> c = CHR ''.'') v"
proof -
  define Q where "Q = (\<lambda>(it :: item) piece. list_all (accepts (fst (snd it))) piece)"
  define D where "D = (\<lambda>c. is_digit c \<or> c = CHR ''.'')"
  from assms obtain ps where s: "search release_pattern u = Some ps" and v: "v = concat ps"
    by (auto simp: re_search_def split: option.splits)
  from search_SomeD [OF s] obtain t where "match_here release_pattern t = Some ps" by blast
  from match_here_pieces [OF this] have "list_all2 Q release_pattern ps"
    by (simp add: Q_def)
  then obtain a b c d e where
    ps: "ps = [a, b, c, d, e]" and qa: "Q (0, Digit, 1, None) a"
    and qb: "Q (0, Lit CHR ''.'', 1, Some 1) b" and qc: "Q (0, Digit, 1, None) c"
    and qd: "Q (0, Lit CHR ''.'', 1, Some 1) d" and qe: "Q (0, Digit, 1, None) e"
    unfolding release_pattern_def
    by (auto simp: list_all2_Cons1)
  have "list_all D a" using qa by (auto simp: Q_def D_def list_all_iff)
  moreover have "list_all D b" using qb by (auto simp: Q_def D_def list_all_iff)
  moreover have "list_all D c" using qc by (auto simp: Q_def D_def list_all_iff)
  moreover have "list_all D d" using qd by (auto simp: Q_def D_def list_all_iff)
  moreover have "list_all D e" using qe by (auto simp: Q_def D_def list_all_iff)
  ultimately have "list_all D v" unfolding v ps by simp
  then show ?thesis by (simp add: D_def)
qed

lemma nlfree_interp:
  "interp g s = Some its \<Longrightarrow> CHR 0x0A \<notin> set s \<Longrightarrow> nlfree its"
  by (auto simp: interp_def nlfree_def list_all_iff split: if_splits)

lemma interp_version:
  assumes "list_all (\<lambda>c. is_digit c \<or> c = CHR ''.'') v"
  shows "\<exists>vs. interp g v = Some vs \<and> nlfree vs"
proof -
  from assms have a: "\<not> list_ex special v" and b: "CHR 0x0A \<notin> set v"
    using digit_not_special by (auto simp: list_all_iff list_ex_iff)
  from a obtain vs where "interp g v = Some vs" by (simp add: interp_def)
  with nlfree_interp [OF this b] show ?thesis by blast
qed

lemma nlfree_append: "nlfree (p @ q) = (nlfree p \<and> nlfree q)"
  by (simp add: nlfree_def)

lemma nlfree_checksum_line_pattern:
  "nlfree vs \<Longrightarrow> nlfree as \<Longrightarrow> nlfree (checksum_line_pattern vs as)"
  by (simp add: checksum_line_pattern_def nlfree_append)
     (simp add: nlfree_def lit_def is_word_def)

lemma re_search_first_line:
  assumes "nlfree p"
  shows "re_search p s = (case find (\<lambda>l. re_search p l \<noteq> None) (lines_of s) of
                   None \<Rightarrow> None | Some l \<Rightarrow> re_search p l)"
proof -
  have e: "find (\<lambda>l. re_search p l \<noteq> None) (lines_of s)
      = find (\<lambda>l. search p l \<noteq> None) (lines_of s)"
    by (rule find_cong) (simp_all add: re_search_def split: option.splits)
  show ?thesis
    unfolding e
  proof (cases "find (\<lambda>l. search p l \<noteq> None) (lines_of s)")
    case None
    with search_first_line [OF assms, of s] have "search p s = None" by simp
    with None show "re_search p s = (case find (\<lambda>l. search p l \<noteq> None) (lines_of s) of
                   None \<Rightarrow> None | Some l \<Rightarrow> re_search p l)"
      by (simp add: re_search_def)
  next
    case (Some l)
    with search_first_line [OF assms, of s] have "search p s = search p l" by simp
    with Some show "re_search p s = (case find (\<lambda>l. search p l \<noteq> None) (lines_of s) of
                   None \<Rightarrow> None | Some l \<Rightarrow> re_search p l)"
      by (simp add: re_search_def)
  qed
qed

lemma doppler_search_first_line:
  assumes "re_search release_pattern u = Some (version, g1, g2)"
    and "interp 2 arch = Some as" and "CHR 0x0A \<notin> set arch"
  shows "doppler_search E version arch s
    = (case find (\<lambda>l. doppler_search E version arch l \<noteq> None) (lines_of s) of
         None \<Rightarrow> None | Some l \<Rightarrow> doppler_search E version arch l)"
proof -
  from interp_version [OF release_version_chars [OF assms(1)], of 2]
  obtain vs where vs: "interp 2 version = Some vs" and nv: "nlfree vs" by blast
  have na: "nlfree as" by (rule nlfree_interp [OF assms(2,3)])
  have d: "doppler_search E version arch = re_search (checksum_line_pattern vs as)"
    by (simp add: doppler_search_def vs assms(2) fun_eq_iff)
  from re_search_first_line [OF nlfree_checksum_line_pattern [OF nv na], of s]
  show ?thesis by (simp only: d)
qed

lemma word_not_space: "is_word c \<Longrightarrow> \<not> is_space c"
  by (auto simp: is_word_def is_space_def Let_def)

lemma strip_no_space: "list_all (\<lambda>c. \<not> is_space c) s \<Longrightarrow> strip s = s"
proof -
  assume a: "list_all (\<lambda>c. \<not> is_space c) s"
  then have "dropWhile is_space s = s" by (cases s) simp_all
  moreover from a have "dropWhile is_space (rev s) = rev s"
    by (cases "rev s") (auto simp: list_all_iff)
  ultimately show ?thesis by (simp add: strip_def)
qed

lemma group_none:
  "\<forall>it\<in>set q. fst it \<noteq> k \<Longrightarrow> group q k ps = []"
  by (auto simp: group_def filter_empty_conv dest!: set_zip_leftD)

lemma interp_tags: "interp g s = Some its \<Longrightarrow> \<forall>it\<in>set its. fst it = g"
  by (auto simp: interp_def split: if_splits)

lemma checksum_group_word:
  assumes "interp 2 version = Some vs" and "interp 2 arch = Some as"
    and "doppler_search E version arch l = Some (g0, csum, file_name)"
  shows "list_all is_word csum"
proof -
  define rest where "rest = (0, Lit CHR '' '', 2, Some 2) # lit 2 ''doppler_'' @ vs
       @ lit 2 ''_'' @ as @ [(2, Lit CHR ''.'', 1, Some 1), (2, WordDot, 1, None)]"
  have p: "checksum_line_pattern vs as = (1, Word, 64, Some 64) # rest"
    by (simp add: checksum_line_pattern_def rest_def)
  from assms have "re_search (checksum_line_pattern vs as) l = Some (g0, csum, file_name)"
    by (simp add: doppler_search_def)
  then obtain ps where s: "search (checksum_line_pattern vs as) l = Some ps"
    and c: "csum = group (checksum_line_pattern vs as) 1 ps"
    by (auto simp: re_search_def split: option.splits)
  from search_SomeD [OF s] obtain t where "match_here (checksum_line_pattern vs as) t = Some ps"
    by blast
  from match_here_pieces [OF this] obtain a ps' where
    ps: "ps = a # ps'" and a: "list_all (accepts Word) a"
    unfolding p by (auto simp: list_all2_Cons1)
  have "\<forall>it\<in>set rest. fst it \<noteq> 1"
    using interp_tags [OF assms(1)] interp_tags [OF assms(2)] by (auto simp: lit_def rest_def)
  then have "group rest 1 ps' = []" by (rule group_none)
  then have "csum = a"
    unfolding c p ps by (simp add: group_def)
  with a show ?thesis by (simp add: list_all_iff)
qed

text \<open>
  C4. The Doppler extractor takes the version from the URL of the response to the
  latest-release request, whatever its body and status; and when the manifest is fetched, the
  checksum and the file name it stores are those of the leftmost match in the first line of
  the manifest that has a match, whatever the other lines hold. (The architecture is one
  without special pattern characters and without a newline.)
\<close>

theorem doppler_first_matching_line:
  assumes "kind (self st) = Doppler arch"
    and "requests_get E ''https://github.com/DopplerHQ/cli/releases/latest'' = Inr latest"
    and "re_search release_pattern (resp_url latest) = Some (version, g1, g2)"
    and "http_url E (''https://github.com/DopplerHQ/cli/releases/download/'' @ version
           @ ''/checksums.txt'') = Some cu"
    and "get_raised E (Some cu) = Inr sums"
    and "interp 2 arch = Some as" and "CHR 0x0A \<notin> set arch"
    and "find (\<lambda>l. doppler_search E version arch l \<noteq> None) (lines_of (resp_text sums))
           = Some line"
    and "doppler_search E version arch line = Some (g0, csum, file_name)"
    and "http_url E (''https://github.com/DopplerHQ/cli/releases/download/'' @ version
           @ ''/'' @ file_name) = Some du"
  shows "populate E st
    = (None, st\<lparr>ref := (ref st)\<lparr>checksum_url := Some cu, checksum := Some csum,
                                  download_url := Some du\<rparr>\<rparr>)"
proof -
  from interp_version [OF release_version_chars [OF assms(3)], of 2]
  obtain vs where vs: "interp 2 version = Some vs" by blast
  have "list_all is_word csum"
    by (rule checksum_group_word [OF vs assms(6) assms(9)])
  then have "list_all (\<lambda>c. \<not> is_space c) csum"
    by (auto simp: list_all_iff dest: word_not_space)
  then have sc: "strip csum = csum" by (rule strip_no_space)
  from doppler_search_first_line [OF assms(3) assms(6) assms(7), of E "resp_text sums"]
    assms(8) assms(9)
  have ds: "doppler_search E version arch (resp_text sums) = Some (g0, csum, file_name)"
    by simp
  show ?thesis
    using assms(1) assms(2) assms(3) assms(4) assms(5) ds assms(10)
    by (simp add: populate_def populate_doppler_def set_checksum_url_def set_checksum_def
          set_download_url_def sc)
qed

theorem doppler_first_matching_line_witness:
  "find (\<lambda>l. doppler_search doppler_world ''3.23.0'' ''linux_arm64'' l \<noteq> None) (lines_of manifest)
     = Some (hex_a @ ''  doppler_3.23.0_linux_arm64.deb'')
   \<and> doppler_search doppler_world ''3.23.0'' ''linux_arm64''
         (hex_a @ ''  doppler_3.23.0_linux_arm64.deb'')
     = Some (hex_a @ ''  doppler_3.23.0_linux_arm64.deb'', hex_a, ''doppler_3.23.0_linux_arm64.deb'')
   \<and> doppler_search doppler_world ''3.23.0'' ''linux_arm64''
         (hex_b @ ''  doppler_3.23.0_linux_arm64.rpm'')
     = Some (hex_b @ ''  doppler_3.23.0_linux_arm64.rpm'', hex_b, ''doppler_3.23.0_linux_arm64.rpm'')
   \<and> populate doppler_world doppler_start
     = (None, doppler_start\<lparr>ref := (ref doppler_start)
         \<lparr>checksum_url :=
            Some ''https://github.com/DopplerHQ/cli/releases/download/3.23.0/checksums.txt'',
          checksum := Some hex_a,
          download_url :=
            Some ''https://github.com/DopplerHQ/cli/releases/download/3.23.0/doppler_3.23.0_linux_arm64.deb''\<rparr>\<rparr>)"
proof -
  let ?latest = "\<lparr>status_code = 200, resp_text = ''<html>9.9.9</html>'', resp_content = [],
              resp_url = ''https://github.com/DopplerHQ/cli/releases/tag/3.23.0''\<rparr>"
  have k: "kind (self doppler_start) = Doppler ''linux_arm64''"
    by (simp add: doppler_start_def doppler_windows_armv7_def doppler_def)
  have l: "requests_get doppler_world ''https://github.com/DopplerHQ/cli/releases/latest''
      = Inr ?latest"
    by (simp add: doppler_world_def world_def serve_def)
  have v: "re_search release_pattern (resp_url ?latest) = Some (''3.23.0'', [], [])"
    by code_simp
  have cu: "http_url doppler_world (''https://github.com/DopplerHQ/cli/releases/download/''
        @ ''3.23.0'' @ ''/checksums.txt'')
      = Some ''https://github.com/DopplerHQ/cli/releases/download/3.23.0/checksums.txt''"
    by (simp add: doppler_world_def world_def)
  have s: "get_raised doppler_world
      (Some ''https://github.com/DopplerHQ/cli/releases/download/3.23.0/checksums.txt'')
      = Inr (page manifest)"
    by (simp add: get_raised_def raise_for_status_def doppler_world_def world_def serve_def page_def)
  have a: "interp 2 ''linux_arm64'' = Some (lit 2 ''linux_arm64'')"
    by (simp add: interp_def lit_def special_def)
  have n: "CHR 0x0A \<notin> set ''linux_arm64''" by simp
  have f: "find (\<lambda>l. doppler_search doppler_world ''3.23.0'' ''linux_arm64'' l \<noteq> None)
      (lines_of (resp_text (page manifest))) = Some (hex_a @ ''  doppler_3.23.0_linux_arm64.deb'')"
    by code_simp
  have m: "doppler_search doppler_world ''3.23.0'' ''linux_arm64''
         (hex_a @ ''  doppler_3.23.0_linux_arm64.deb'')
     = Some (hex_a @ ''  doppler_3.23.0_linux_arm64.deb'', hex_a, ''doppler_3.23.0_linux_arm64.deb'')"
    by code_simp
  have m2: "doppler_search doppler_world ''3.23.0'' ''linux_arm64''
         (hex_b @ ''  doppler_3.23.0_linux_arm64.rpm'')
     = Some (hex_b @ ''  doppler_3.23.0_linux_arm64.rpm'', hex_b, ''doppler_3.23.0_linux_arm64.rpm'')"
    by code_simp
  have du: "http_url doppler_world (''https://github.com/DopplerHQ/cli/releases/download/''
        @ ''3.23.0'' @ ''/'' @ ''doppler_3.23.0_linux_arm64.deb'')
      = Some ''https://github.com/DopplerHQ/cli/releases/download/3.23.0/doppler_3.23.0_linux_arm64.deb''"
    by (simp add: doppler_world_def world_def)
  from doppler_first_matching_line [OF k l v cu s a n f m du] f m m2
  show ?thesis by (simp add: page_def)
qed

subsection \<open>The key pattern of the Transmission extractor\<close>

lemma match_here_Lit:
  "match_here ((g, Lit c, 1, Some 1) # its) s =
     (case s of [] \<Rightarrow> None
      | x # xs \<Rightarrow> if x = c then map_option ((#) [c]) (match_here its xs) else None)"
proof (cases s)
  case Nil
  then show ?thesis by simp
next
  case (Cons x xs)
  show ?thesis
  proof (cases "x = c")
    case True
    have "min (1::nat) (Suc (length (takeWhile (\<lambda>y. y = c) xs))) = Suc 0" by simp
    with True Cons show ?thesis by (simp split: option.splits)
  next
    case False
    with Cons show ?thesis by simp
  qed
qed

lemma match_here_lit:
  "match_here (lit g w @ its) s =
     (if prefix w s then map_option ((@) (map (\<lambda>c. [c]) w)) (match_here its (drop (length w) s))
      else None)"
proof (induction w arbitrary: s)
  case Nil
  show ?case by (cases "match_here its s") (simp_all add: lit_def)
next
  case (Cons c w)
  have l: "lit g (c # w) @ its = (g, Lit c, 1, Some 1) # (lit g w @ its)"
    by (simp add: lit_def)
  show ?case
  proof (cases s)
    case Nil
    then show ?thesis unfolding l match_here_Lit by simp
  next
    case (Cons x xs)
    from Cons.IH [of xs] Cons show ?thesis
      unfolding l match_here_Lit
      by (cases "match_here its (drop (length w) xs)") (auto simp: option.map_comp comp_def)
  qed
qed

lemma greedy_pick:
  assumes "lo \<le> j" and "j \<le> k" and "cont (drop j s) = Some ps"
    and "\<And>i. j < i \<Longrightarrow> i \<le> k \<Longrightarrow> cont (drop i s) = None"
  shows "greedy cont s lo k = Some (take j s # ps)"
  using assms(2) assms(4)
proof (induction k)
  case 0
  with assms(1) assms(3) show ?case by simp
next
  case (Suc k)
  show ?case
  proof (cases "j = Suc k")
    case True
    with assms(1) assms(3) show ?thesis by simp
  next
    case False
    with Suc.prems(1) have jk: "j \<le> k" by simp
    then have "j < Suc k" by simp
    from Suc.prems(2) [OF this] have n: "cont (drop (Suc k) s) = None" by simp
    have "greedy cont s lo k = Some (take j s # ps)"
      by (rule Suc.IH [OF jk]) (simp add: Suc.prems(2))
    with n assms(1) jk show ?thesis by simp
  qed
qed

lemma match_quoted:
  assumes "CHR 0x0A \<notin> set v"
    and "CHR 0x22 \<notin> set (takeWhile (\<lambda>c. c \<noteq> CHR 0x0A) w)"
  shows "match_here ((1, Dot, 0, None) # lit 0 [CHR 0x22]) (v @ CHR 0x22 # w)
    = Some [v, [CHR 0x22]]"
proof -
  let ?P = "\<lambda>c. c \<noteq> CHR 0x0A"
  let ?s = "v @ CHR 0x22 # w"
  let ?cont = "match_here (lit 0 [CHR 0x22])"
  define a where "a = takeWhile ?P w"
  define b where "b = dropWhile ?P w"
  have w: "w = a @ b" by (simp add: a_def b_def)
  have b: "b = [] \<or> hd b = CHR 0x0A"
    using hd_dropWhile [of ?P w] by (auto simp: b_def)
  have a: "CHR 0x22 \<notin> set a" using assms(2) by (simp add: a_def)
  have cont: "\<And>t. ?cont t = (if prefix [CHR 0x22] t then Some [[CHR 0x22]] else None)"
    using match_here_lit [of 0 "[CHR 0x22]" "[]"] by simp
  have "\<forall>x\<in>set v. ?P x" using assms(1) by auto
  then have "takeWhile ?P ?s = v @ CHR 0x22 # a"
    by (simp add: takeWhile_append2 a_def)
  then have n: "length (takeWhile (accepts Dot) ?s) = length v + 1 + length a"
    by (simp add: accepts.simps [abs_def])
  have "greedy ?cont ?s 0 (length v + 1 + length a) = Some (take (length v) ?s # [[CHR 0x22]])"
  proof (rule greedy_pick)
    show "0 \<le> length v" by simp
    show "length v \<le> length v + 1 + length a" by simp
    show "?cont (drop (length v) ?s) = Some [[CHR 0x22]]" by (simp add: cont)
    fix i assume i: "length v < i" "i \<le> length v + 1 + length a"
    define d where "d = i - length v - 1"
    from i have d: "d \<le> length a" and di: "i = length v + 1 + d" by (simp_all add: d_def)
    have dr: "drop i ?s = drop d a @ b" using d by (simp add: di w)
    have "\<not> prefix [CHR 0x22] (drop d a @ b)"
    proof (cases "drop d a")
      case Nil
      with b show ?thesis by (cases b) auto
    next
      case (Cons x xs)
      then have "x \<in> set a" by (metis in_set_dropD list.set_intros(1))
      with a have "x \<noteq> CHR 0x22" by auto
      with Cons show ?thesis by simp
    qed
    then show "?cont (drop i ?s) = None" unfolding dr by (simp add: cont)
  qed
  then show ?thesis by (simp add: n)
qed

lemma search_skip:
  "(\<And>i. i < length pre \<Longrightarrow> match_here p (drop i (pre @ t)) = None) \<Longrightarrow>
   search p (pre @ t) = search p t"
proof (induction pre)
  case Nil
  show ?case by simp
next
  case (Cons c pre)
  from Cons.prems [of 0] have h: "match_here p (c # pre @ t) = None" by simp
  have "search p (pre @ t) = search p t"
  proof (rule Cons.IH)
    fix i assume "i < length pre"
    then have "Suc i < length (c # pre)" by simp
    from Cons.prems [OF this] show "match_here p (drop i (pre @ t)) = None" by simp
  qed
  with h show ?case by simp
qed

lemma search_here: "match_here p t = Some ps \<Longrightarrow> search p t = Some ps"
  by (cases t) simp_all

lemma filter_lit_group:
  "filter (\<lambda>(it, piece). fst it = Suc 0) (zip (lit 0 K) ys) = []"
  by (auto simp: filter_empty_conv lit_def dest!: set_zip_leftD)

lemma length_lit: "length (lit g s) = length s"
  by (simp add: lit_def)

lemma group_quoted:
  "group (lit 0 K @ (1, Dot, 0, None) # lit 0 [CHR 0x22]) 1 (map (\<lambda>c. [c]) K @ [v, [CHR 0x22]])
     = v"
  by (simp add: group_def length_lit filter_lit_group)

lemma key_search_first:
  assumes "interp 0 key = Some (lit 0 key)"
    and "s = pre @ (key @ [CHR '':'', CHR '' '', CHR 0x22]) @ v @ CHR 0x22 # w"
    and "\<And>i. i < length pre \<Longrightarrow> \<not> prefix (key @ [CHR '':'', CHR '' '', CHR 0x22]) (drop i s)"
    and "CHR 0x0A \<notin> set v"
    and "CHR 0x22 \<notin> set (takeWhile (\<lambda>c. c \<noteq> CHR 0x0A) w)"
  shows "\<exists>g0 g2. key_search E key s = Some (g0, v, g2)"
proof -
  let ?K = "key @ [CHR '':'', CHR '' '', CHR 0x22]"
  let ?p = "lit 0 ?K @ (1, Dot, 0, None) # lit 0 [CHR 0x22]"
  let ?t = "?K @ v @ CHR 0x22 # w"
  have k: "key_search E key s = re_search ?p s"
    by (simp add: key_search_def assms(1) lit_def)
  have "match_here ?p ?t = Some (map (\<lambda>c. [c]) ?K @ [v, [CHR 0x22]])"
    unfolding match_here_lit using match_quoted [OF assms(4) assms(5)] by simp
  then have h: "search ?p ?t = Some (map (\<lambda>c. [c]) ?K @ [v, [CHR 0x22]])"
    by (rule search_here)
  have "search ?p (pre @ ?t) = search ?p ?t"
  proof (rule search_skip)
    fix i assume "i < length pre"
    from assms(3) [OF this] show "match_here ?p (drop i (pre @ ?t)) = None"
      unfolding match_here_lit assms(2) by simp
  qed
  with h have "search ?p s = Some (map (\<lambda>c. [c]) ?K @ [v, [CHR 0x22]])"
    by (simp add: assms(2))
  then show ?thesis
    unfolding k re_search_def by (simp only: option.case group_quoted) blast
qed

lemma format_foo: "format E ''Foo-{version}.dmg'' ''3.00'' = Inr ''Foo-3.00.dmg''"
  by (simp add: format_def format_version.simps)

lemma interp_sha_key: "interp 0 ''sha256_dmg'' = Some (lit 0 ''sha256_dmg'')"
  by (simp add: interp_def lit_def special_def)

lemma interp_version_key: "interp 0 ''current_version_dmg'' = Some (lit 0 ''current_version_dmg'')"
  by (simp add: interp_def lit_def special_def)

lemma no_earlier:
  "list_all (\<lambda>i. \<not> prefix K (drop i s)) [0..<n] \<Longrightarrow> \<forall>i<n. \<not> prefix K (drop i s)"
  by (simp add: list_all_iff)

text \<open>
  C5, as amended. For a Transmission factory with the template \<open>Foo-{version}.dmg\<close> and the
  keys \<open>sha256_dmg\<close> and \<open>current_version_dmg\<close>: when the fetched content has
  \<open>deadbeef\<close> and a double quote right after the first occurrence of the text
  \<open>sha256_dmg: "\<close>, with no further double quote on that line, and likewise \<open>3.00\<close> after
  the first occurrence of \<open>current_version_dmg: "\<close>, and the download URL is accepted as it
  is, \<open>make()\<close> returns a Reference with checksum \<open>deadbeef\<close> and a download_url that ends in
  \<open>Foo-3.00.dmg\<close>.
\<close>

theorem transmission_first_constants:
  assumes "kind f = Transmission ''Foo-{version}.dmg'' ''sha256_dmg'' ''current_version_dmg''"
    and "get_raised E (checksum_url f) = Inr constants"
    and \<open>resp_text constants = pre1 @ ''sha256_dmg: "deadbeef"'' @ post1\<close>
    and \<open>\<forall>i<length pre1. \<not> prefix ''sha256_dmg: "'' (drop i (resp_text constants))\<close>
    and "CHR 0x22 \<notin> set (takeWhile (\<lambda>c. c \<noteq> CHR 0x0A) post1)"
    and \<open>resp_text constants = pre2 @ ''current_version_dmg: "3.00"'' @ post2\<close>
    and \<open>\<forall>i<length pre2. \<not> prefix ''current_version_dmg: "'' (drop i (resp_text constants))\<close>
    and "CHR 0x22 \<notin> set (takeWhile (\<lambda>c. c \<noteq> CHR 0x0A) post2)"
    and "http_url E ''https://github.com/transmission/transmission-releases/raw/master/Foo-3.00.dmg''
           = Some ''https://github.com/transmission/transmission-releases/raw/master/Foo-3.00.dmg''"
  shows "fst (make IGNORED E f)
    = Inr ((new_reference f)
        \<lparr>download_url :=
           Some ''https://github.com/transmission/transmission-releases/raw/master/Foo-3.00.dmg'',
         checksum := Some ''deadbeef''\<rparr>)"
proof -
  have "\<exists>g0 g2. key_search E ''sha256_dmg'' (resp_text constants) = Some (g0, ''deadbeef'', g2)"
  proof (rule key_search_first [OF interp_sha_key, where pre = pre1 and w = post1])
    show "resp_text constants
      = pre1 @ (''sha256_dmg'' @ [CHR '':'', CHR '' '', CHR 0x22]) @ ''deadbeef'' @ CHR 0x22 # post1"
      using assms(3) by simp
    show "\<And>i. i < length pre1 \<Longrightarrow>
      \<not> prefix (''sha256_dmg'' @ [CHR '':'', CHR '' '', CHR 0x22]) (drop i (resp_text constants))"
      using assms(4) by simp
    show "CHR 0x0A \<notin> set ''deadbeef''" by simp
    show "CHR 0x22 \<notin> set (takeWhile (\<lambda>c. c \<noteq> CHR 0x0A) post1)" by (rule assms(5))
  qed
  then obtain g0 g2 where
    sha: "key_search E ''sha256_dmg'' (resp_text constants) = Some (g0, ''deadbeef'', g2)"
    by blast
  have "\<exists>h0 h2. key_search E ''current_version_dmg'' (resp_text constants) = Some (h0, ''3.00'', h2)"
  proof (rule key_search_first [OF interp_version_key, where pre = pre2 and w = post2])
    show "resp_text constants
      = pre2 @ (''current_version_dmg'' @ [CHR '':'', CHR '' '', CHR 0x22]) @ ''3.00'' @ CHR 0x22 # post2"
      using assms(6) by simp
    show "\<And>i. i < length pre2 \<Longrightarrow>
      \<not> prefix (''current_version_dmg'' @ [CHR '':'', CHR '' '', CHR 0x22])
          (drop i (resp_text constants))"
      using assms(7) by simp
    show "CHR 0x0A \<notin> set ''3.00''" by simp
    show "CHR 0x22 \<notin> set (takeWhile (\<lambda>c. c \<noteq> CHR 0x0A) post2)" by (rule assms(8))
  qed
  then obtain h0 h2 where
    ver: "key_search E ''current_version_dmg'' (resp_text constants) = Some (h0, ''3.00'', h2)"
    by blast
  have st: "strip ''deadbeef'' = ''deadbeef''"
    by (simp add: strip_def is_space_def)
  show ?thesis
    using assms(1) assms(2) sha ver assms(9)
    by (simp add: make_def populate_def populate_transmission_def set_checksum_def st
          format_foo set_download_url_def new_reference_def)
qed

theorem transmission_first_constants_witness:
  \<open>kind foo_factory = Transmission ''Foo-{version}.dmg'' ''sha256_dmg'' ''current_version_dmg''
   \<and> get_raised (transmission_world constants_js) (checksum_url foo_factory) = Inr (page constants_js)
   \<and> constants_js = (''const constants = {'' @ [CHR 0x0A]
         @ ''    current_version_dmg: "3.00",'' @ [CHR 0x0A] @ ''    '')
       @ ''sha256_dmg: "deadbeef"'' @ ('','' @ [CHR 0x0A] @ ''};'' @ [CHR 0x0A])
   \<and> constants_js = (''const constants = {'' @ [CHR 0x0A] @ ''    '')
       @ ''current_version_dmg: "3.00"''
       @ ('','' @ [CHR 0x0A] @ ''    sha256_dmg: "deadbeef",'' @ [CHR 0x0A] @ ''};'' @ [CHR 0x0A])
   \<and> fst (make network_or_parse (transmission_world constants_js) foo_factory)
     = Inr \<lparr>algorithm = ''sha256'',
            checksum_url = Some ''https://transmissionbt.com/includes/js/constants.js'',
            download_url =
              Some ''https://github.com/transmission/transmission-releases/raw/master/Foo-3.00.dmg'',
            checksum = Some ''deadbeef''\<rparr>\<close>
proof -
  let ?pre1 = \<open>''const constants = {'' @ [CHR 0x0A]
         @ ''    current_version_dmg: "3.00",'' @ [CHR 0x0A] @ ''    ''\<close>
  let ?post1 = "'','' @ [CHR 0x0A] @ ''};'' @ [CHR 0x0A]"
  let ?pre2 = "''const constants = {'' @ [CHR 0x0A] @ ''    ''"
  let ?post2 = \<open>'','' @ [CHR 0x0A] @ ''    sha256_dmg: "deadbeef",'' @ [CHR 0x0A] @ ''};'' @ [CHR 0x0A]\<close>
  let ?E = "transmission_world constants_js"
  have k: "kind foo_factory = Transmission ''Foo-{version}.dmg'' ''sha256_dmg'' ''current_version_dmg''"
    by (simp add: foo_factory_def transmission_def)
  have g: "get_raised ?E (checksum_url foo_factory) = Inr (page constants_js)"
    by (simp add: get_raised_def raise_for_status_def transmission_world_def world_def serve_def
          page_def foo_factory_def transmission_def)
  have t1: \<open>resp_text (page constants_js) = ?pre1 @ ''sha256_dmg: "deadbeef"'' @ ?post1\<close>
    by (simp add: page_def constants_js_def)
  have t2: \<open>resp_text (page constants_js) = ?pre2 @ ''current_version_dmg: "3.00"'' @ ?post2\<close>
    by (simp add: page_def constants_js_def)
  have "list_all (\<lambda>i. \<not> prefix ''sha256_dmg: \"'' (drop i (resp_text (page constants_js))))
          [0..<length ?pre1]"
    by code_simp
  then have n1: \<open>\<forall>i<length ?pre1. \<not> prefix ''sha256_dmg: "'' (drop i (resp_text (page constants_js)))\<close>
    by (rule no_earlier)
  have "list_all (\<lambda>i. \<not> prefix ''current_version_dmg: \"'' (drop i (resp_text (page constants_js))))
          [0..<length ?pre2]"
    by code_simp
  then have n2: \<open>\<forall>i<length ?pre2. \<not> prefix ''current_version_dmg: "''
      (drop i (resp_text (page constants_js)))\<close>
    by (rule no_earlier)
  have q1: "CHR 0x22 \<notin> set (takeWhile (\<lambda>c. c \<noteq> CHR 0x0A) ?post1)" by simp
  have q2: "CHR 0x22 \<notin> set (takeWhile (\<lambda>c. c \<noteq> CHR 0x0A) ?post2)" by simp
  have u: "http_url ?E ''https://github.com/transmission/transmission-releases/raw/master/Foo-3.00.dmg''
           = Some ''https://github.com/transmission/transmission-releases/raw/master/Foo-3.00.dmg''"
    by (simp add: transmission_world_def world_def)
  from transmission_first_constants [OF k g t1 n1 q1 t2 n2 q2 u, of network_or_parse] k g t1 t2
  show ?thesis
    by (simp add: new_reference_def foo_factory_def transmission_def page_def)
qed

text \<open>
  C5, as stated, fails for content that holds both constants on one line: the greedy group
  runs to the last double quote of the line, and the checksum is not \<open>deadbeef\<close>.
\<close>

theorem transmission_greedy_on_one_line:
  \<open>fst (make network_or_parse
          (transmission_world ''sha256_dmg: "deadbeef", current_version_dmg: "3.00"'') foo_factory)
     = Inr \<lparr>algorithm = ''sha256'',
            checksum_url = Some ''https://transmissionbt.com/includes/js/constants.js'',
            download_url =
              Some ''https://github.com/transmission/transmission-releases/raw/master/Foo-3.00.dmg'',
            checksum = Some ''deadbeef", current_version_dmg: "3.00''\<rparr>\<close>
  by code_simp

end
